theory Spec2Isabelle
  imports Complex_Main "HOL-Library.FSet" "HOL-Library.AList" "HOL-Library.List_Lexorder"
    "HOL-Library.Char_ord"
begin

section \<open>Python values\<close>

text \<open>
  The records and the page metadata of the exchange's API are what \<^verbatim>\<open>json.loads\<close>
  returns: \<^verbatim>\<open>None\<close>, booleans, numbers, strings, lists and dictionaries. A Python
  \<^verbatim>\<open>str\<close> that is only compared, concatenated or used as a key is modelled by the
  \<open>string\<close> of its UTF-8 bytes (the encoding is injective and keeps concatenation, so
  equality, emptiness and lookup are those of Python). A finite float is modelled by its
  exact value; the non-finite floats that \<^verbatim>\<open>json.loads\<close> returns for \<^verbatim>\<open>Infinity\<close>,
  \<^verbatim>\<open>-Infinity\<close> (or a number too large for a float) and \<^verbatim>\<open>NaN\<close> are values of their
  own. A \<^verbatim>\<open>dict\<close> is an association list read with \<open>map_of\<close>.
\<close>

datatype json =
    JNull
  | JBool bool
  | JInt int
  | JFloat rat
  | JInfinity
  | JNegInfinity
  | JNaN
  | JStr string
  | JList "json list"
  | JObj "(string \<times> json) list"

type_synonym pydict = "(string \<times> json) list"

text \<open>An instant (\<^verbatim>\<open>datetime\<close>), written in ISO 8601; it is only passed along.\<close>

type_synonym datetime = string

text \<open>\<^verbatim>\<open>d.get(k)\<close>: the value, \<^verbatim>\<open>None\<close> when the key is absent.\<close>

definition dict_get :: "pydict \<Rightarrow> string \<Rightarrow> json" where
  "dict_get d k = (case map_of d k of None \<Rightarrow> JNull | Some v \<Rightarrow> v)"

text \<open>Truth value of a Python object, as \<^verbatim>\<open>if x\<close> and \<^verbatim>\<open>x or y\<close> test it.\<close>

fun truthy :: "json \<Rightarrow> bool" where
  "truthy JNull = False"
| "truthy (JBool b) = b"
| "truthy (JInt n) = (n \<noteq> 0)"
| "truthy (JFloat q) = (q \<noteq> 0)"
| "truthy JInfinity = True"
| "truthy JNegInfinity = True"
| "truthy JNaN = True"
| "truthy (JStr s) = (s \<noteq> [])"
| "truthy (JList xs) = (xs \<noteq> [])"
| "truthy (JObj kvs) = (kvs \<noteq> [])"

text \<open>\<^verbatim>\<open>x or y\<close> returns \<^verbatim>\<open>x\<close> when it is true and \<^verbatim>\<open>y\<close> otherwise.\<close>

definition py_or :: "json \<Rightarrow> json \<Rightarrow> json" where
  "py_or x y = (if truthy x then x else y)"

text \<open>The exceptions of the model.\<close>

datatype pyerror =
    ValueError
  | TypeError
  | OverflowError
  | ValidationError "string list"

section \<open>Stock record models (\<^verbatim>\<open>models/stock.py\<close>)\<close>

record RawSseRecord =
  A_STOCK_CODE :: "string option"
  B_STOCK_CODE :: "string option"
  COMPANY_CODE :: "string option"
  SEC_NAME_CN :: "string option"
  SEC_NAME_FULL :: "string option"
  COMPANY_ABBR :: "string option"
  FULL_NAME :: "string option"
  FULL_NAME_IN_ENGLISH :: "string option"
  COMPANY_ABBR_EN :: "string option"
  STOCK_TYPE :: "string option"
  LIST_BOARD :: "string option"
  LIST_DATE :: "string option"
  DELIST_DATE :: "string option"
  CSRC_CODE :: "string option"
  CSRC_CODE_DESC :: "string option"
  AREA_NAME :: "string option"
  AREA_NAME_DESC :: "string option"
  STATE_CODE :: "string option"
  STATE_CODE_STOCK :: "string option"
  PRODUCT_STATUS :: "string option"
  NUM :: "string option"
  model_extra :: pydict

record StockRecord =
  exchange :: string
  symbol :: string
  name :: string
  full_name :: "string option"
  category :: string
  list_date :: "string option"
  csrc_code :: "string option"
  csrc_desc :: "string option"
  province :: "string option"
  status :: "string option"
  source_url :: string
  asof :: datetime
  raw :: "pydict option"

definition declared_fields :: "string list" where
  "declared_fields =
    [''A_STOCK_CODE'', ''B_STOCK_CODE'', ''COMPANY_CODE'', ''SEC_NAME_CN'', ''SEC_NAME_FULL'',
     ''COMPANY_ABBR'', ''FULL_NAME'', ''FULL_NAME_IN_ENGLISH'', ''COMPANY_ABBR_EN'',
     ''STOCK_TYPE'', ''LIST_BOARD'', ''LIST_DATE'', ''DELIST_DATE'', ''CSRC_CODE'',
     ''CSRC_CODE_DESC'', ''AREA_NAME'', ''AREA_NAME_DESC'', ''STATE_CODE'',
     ''STATE_CODE_STOCK'', ''PRODUCT_STATUS'', ''NUM'']"

text \<open>
  A field declared \<^verbatim>\<open>str | None\<close> accepts a string or \<^verbatim>\<open>None\<close> (also by absence, its
  default); a number, a boolean, a list or a dictionary is a validation error.
\<close>

fun field_ok :: "json \<Rightarrow> bool" where
  "field_ok JNull = True"
| "field_ok (JStr s) = True"
| "field_ok v = False"

fun str_field :: "json \<Rightarrow> string option" where
  "str_field (JStr s) = Some s"
| "str_field v = None"

text \<open>
  \<^verbatim>\<open>RawSseRecord.model_validate(raw_data)\<close>: every declared field is checked; the keys
  that are not declared are kept (\<^verbatim>\<open>extra = "allow"\<close>). The error names the fields
  that failed.
\<close>

definition model_validate :: "pydict \<Rightarrow> pyerror + RawSseRecord" where
  "model_validate d =
    (let bad = filter (\<lambda>k. \<not> field_ok (dict_get d k)) declared_fields;
         f = (\<lambda>k. str_field (dict_get d k))
     in if bad \<noteq> [] then Inl (ValidationError bad)
        else Inr \<lparr>A_STOCK_CODE = f ''A_STOCK_CODE'', B_STOCK_CODE = f ''B_STOCK_CODE'',
          COMPANY_CODE = f ''COMPANY_CODE'', SEC_NAME_CN = f ''SEC_NAME_CN'',
          SEC_NAME_FULL = f ''SEC_NAME_FULL'', COMPANY_ABBR = f ''COMPANY_ABBR'',
          FULL_NAME = f ''FULL_NAME'', FULL_NAME_IN_ENGLISH = f ''FULL_NAME_IN_ENGLISH'',
          COMPANY_ABBR_EN = f ''COMPANY_ABBR_EN'', STOCK_TYPE = f ''STOCK_TYPE'',
          LIST_BOARD = f ''LIST_BOARD'', LIST_DATE = f ''LIST_DATE'',
          DELIST_DATE = f ''DELIST_DATE'', CSRC_CODE = f ''CSRC_CODE'',
          CSRC_CODE_DESC = f ''CSRC_CODE_DESC'', AREA_NAME = f ''AREA_NAME'',
          AREA_NAME_DESC = f ''AREA_NAME_DESC'', STATE_CODE = f ''STATE_CODE'',
          STATE_CODE_STOCK = f ''STATE_CODE_STOCK'', PRODUCT_STATUS = f ''PRODUCT_STATUS'',
          NUM = f ''NUM'',
          model_extra = filter (\<lambda>kv. fst kv \<notin> set declared_fields) d\<rparr>)"

definition opt_json :: "string option \<Rightarrow> json" where
  "opt_json v = (case v of None \<Rightarrow> JNull | Some s \<Rightarrow> JStr s)"

text \<open>\<^verbatim>\<open>raw.model_dump()\<close>: the declared fields in their order, then the extra ones.\<close>

definition model_dump :: "RawSseRecord \<Rightarrow> pydict" where
  "model_dump r =
    [(''A_STOCK_CODE'', opt_json (A_STOCK_CODE r)), (''B_STOCK_CODE'', opt_json (B_STOCK_CODE r)),
     (''COMPANY_CODE'', opt_json (COMPANY_CODE r)), (''SEC_NAME_CN'', opt_json (SEC_NAME_CN r)),
     (''SEC_NAME_FULL'', opt_json (SEC_NAME_FULL r)), (''COMPANY_ABBR'', opt_json (COMPANY_ABBR r)),
     (''FULL_NAME'', opt_json (FULL_NAME r)),
     (''FULL_NAME_IN_ENGLISH'', opt_json (FULL_NAME_IN_ENGLISH r)),
     (''COMPANY_ABBR_EN'', opt_json (COMPANY_ABBR_EN r)), (''STOCK_TYPE'', opt_json (STOCK_TYPE r)),
     (''LIST_BOARD'', opt_json (LIST_BOARD r)), (''LIST_DATE'', opt_json (LIST_DATE r)),
     (''DELIST_DATE'', opt_json (DELIST_DATE r)), (''CSRC_CODE'', opt_json (CSRC_CODE r)),
     (''CSRC_CODE_DESC'', opt_json (CSRC_CODE_DESC r)), (''AREA_NAME'', opt_json (AREA_NAME r)),
     (''AREA_NAME_DESC'', opt_json (AREA_NAME_DESC r)), (''STATE_CODE'', opt_json (STATE_CODE r)),
     (''STATE_CODE_STOCK'', opt_json (STATE_CODE_STOCK r)),
     (''PRODUCT_STATUS'', opt_json (PRODUCT_STATUS r)), (''NUM'', opt_json (NUM r))]
    @ model_extra r"

section \<open>Normalisation (\<^verbatim>\<open>normalizers/sse.py\<close>)\<close>

text \<open>
  \<^verbatim>\<open>STOCK_TYPE_MAP\<close>; the category names are Chinese and are written as their UTF-8
  bytes.
\<close>

definition STOCK_TYPE_MAP :: "(string \<times> string) list" where
  "STOCK_TYPE_MAP =
    [(''1'', [CHR 0xE4, CHR 0xB8, CHR 0xBB, CHR 0xE6, CHR 0x9D, CHR 0xBF, CHR ''A'',
              CHR 0xE8, CHR 0x82, CHR 0xA1]),
     (''2'', [CHR 0xE4, CHR 0xB8, CHR 0xBB, CHR 0xE6, CHR 0x9D, CHR 0xBF, CHR ''B'',
              CHR 0xE8, CHR 0x82, CHR 0xA1]),
     (''8'', [CHR 0xE7, CHR 0xA7, CHR 0x91, CHR 0xE5, CHR 0x88, CHR 0x9B, CHR 0xE6,
              CHR 0x9D, CHR 0xBF])]"

text \<open>\<^verbatim>\<open>not symbol or symbol == "-"\<close> on a value of type \<^verbatim>\<open>str | None\<close>.\<close>

definition no_symbol :: "string option \<Rightarrow> bool" where
  "no_symbol s = (case s of None \<Rightarrow> True | Some t \<Rightarrow> t = [] \<or> t = ''-'')"

text \<open>\<^verbatim>\<open>not name\<close> on a value of type \<^verbatim>\<open>str | None\<close>.\<close>

definition no_text :: "string option \<Rightarrow> bool" where
  "no_text s = (case s of None \<Rightarrow> True | Some t \<Rightarrow> t = [])"

definition normalize_sse_record ::
  "RawSseRecord \<Rightarrow> string \<Rightarrow> datetime \<Rightarrow> string \<Rightarrow> bool \<Rightarrow> pyerror + StockRecord" where
  "normalize_sse_record rw src_url ts stock_type include_raw =
    (let sym = A_STOCK_CODE rw;
         sym = (if no_symbol sym then B_STOCK_CODE rw else sym);
         sym = (if no_symbol sym then COMPANY_CODE rw else sym)
     in case (if no_symbol sym then None else sym) of
          None \<Rightarrow> Inl ValueError
        | Some sy \<Rightarrow>
           (let nm = SEC_NAME_CN rw;
                nm = (if no_text nm then COMPANY_ABBR rw else nm);
                nm = (if no_text nm then SEC_NAME_FULL rw else nm);
                nm = (if no_text nm then Some sy else nm);
                fullname = (if no_text (FULL_NAME rw) then SEC_NAME_FULL rw else FULL_NAME rw);
                cat = ''STOCK_TYPE_'' @ stock_type;
                cat = (case map_of STOCK_TYPE_MAP stock_type of
                         None \<Rightarrow> cat | Some label \<Rightarrow> cat @ ''_'' @ label)
            in Inr \<lparr>exchange = ''Shanghai_Stocks'', symbol = sy,
                 name = (case nm of None \<Rightarrow> sy | Some n \<Rightarrow> n),
                 full_name = fullname, category = cat, list_date = LIST_DATE rw,
                 csrc_code = CSRC_CODE rw, csrc_desc = CSRC_CODE_DESC rw,
                 province = AREA_NAME_DESC rw, status = STATE_CODE_STOCK rw,
                 source_url = src_url, asof = ts,
                 raw = (if include_raw then Some (model_dump rw) else None)\<rparr>))"

text \<open>
  The selection rules in the words of the specification: the first candidate that carries
  a value which is not empty (and, for the symbol, is not the sentinel \<open>-\<close>).
\<close>

definition first_usable_symbol :: "string option list \<Rightarrow> string option" where
  "first_usable_symbol cands =
    (case filter (\<lambda>s. s \<noteq> [] \<and> s \<noteq> ''-'') (List.map_filter id cands) of
       [] \<Rightarrow> None | s # rest \<Rightarrow> Some s)"

definition first_nonempty :: "string option list \<Rightarrow> string option" where
  "first_nonempty cands =
    (case filter (\<lambda>s. s \<noteq> []) (List.map_filter id cands) of
       [] \<Rightarrow> None | s # rest \<Rightarrow> Some s)"

definition symbol_and_name :: "pyerror + StockRecord \<Rightarrow> pyerror + string \<times> string" where
  "symbol_and_name res = (case res of Inl e \<Rightarrow> Inl e | Inr r \<Rightarrow> Inr (symbol r, name r))"

section \<open>Configuration (\<^verbatim>\<open>models/config.py\<close>)\<close>

text \<open>Floats of the configuration are modelled by their exact values.\<close>

record PaginationConfig =
  page_size :: int
  cache_size :: int

record RateLimitConfig =
  requests_per_second :: rat
  page_delay :: rat

record RetryConfig =
  max_attempts :: int
  backoff_multiplier :: rat
  initial_delay :: rat

record JsonpConfig =
  param_name :: string
  callback_prefix :: string

record SseConfig =
  endpoint :: string
  query :: "(string \<times> string) list"
  filters :: "(string \<times> string) list"
  pagination :: PaginationConfig
  jsonp :: JsonpConfig
  headers :: "(string \<times> string) list"
  cookies :: "(string \<times> string) list"
  rate_limit :: RateLimitConfig
  retry :: RetryConfig
  timeout :: rat

text \<open>
  \<^verbatim>\<open>str.lower()\<close>, as far as a comparison with ASCII text can tell: the letters A to Z
  become small, and so does the Kelvin sign (U+212A, in UTF-8 the bytes E2 84 AA), the
  only other character that becomes ASCII text.
\<close>

definition lower_char :: "char \<Rightarrow> char" where
  "lower_char c =
    (case map_of (zip ''ABCDEFGHIJKLMNOPQRSTUVWXYZ'' ''abcdefghijklmnopqrstuvwxyz'') c of
       None \<Rightarrow> c | Some l \<Rightarrow> l)"

fun lower :: "string \<Rightarrow> string" where
  "lower (c1 # c2 # c3 # s) =
    (if c1 = CHR 0xE2 \<and> c2 = CHR 0x84 \<and> c3 = CHR 0xAA then CHR ''k'' # lower s
     else lower_char c1 # lower (c2 # c3 # s))"
| "lower (c # s) = lower_char c # lower s"
| "lower [] = []"

text \<open>
  A \<^verbatim>\<open>dict[str, str]\<close> built by a comprehension over \<^verbatim>\<open>items()\<close> keeps the entries that
  pass the test, in order.
\<close>

definition get_safe_headers :: "SseConfig \<Rightarrow> (string \<times> string) list" where
  "get_safe_headers cfg = filter (\<lambda>kv. lower (fst kv) \<noteq> ''cookie'') (headers cfg)"

section \<open>Pagination engine (\<^verbatim>\<open>fetchers/sse/fetcher.py\<close>)\<close>

text \<open>
  The text of an HTTP response is sliced by characters, so it is a list of code points.
\<close>

type_synonym pytext = "nat list"

datatype SseApiError = SseApiError (message: string) (response_text: "pytext option")

text \<open>
  Membership in a Python \<^verbatim>\<open>set\<close> hashes the value: a list or a dictionary raises
  \<^verbatim>\<open>TypeError\<close>, and numbers that are equal (\<^verbatim>\<open>True == 1 == 1.0\<close>) are one key. Every
  \<^verbatim>\<open>NaN\<close> of \<^verbatim>\<open>json.loads\<close> is the same object, which a set finds by identity, so it
  is one key too.
\<close>

datatype pykey = KNone | KNum rat | KInfinity | KNegInfinity | KNaN | KStr string

fun hash_key :: "json \<Rightarrow> pykey option" where
  "hash_key JNull = Some KNone"
| "hash_key (JBool b) = Some (KNum (if b then 1 else 0))"
| "hash_key (JInt n) = Some (KNum (of_int n))"
| "hash_key (JFloat q) = Some (KNum q)"
| "hash_key JInfinity = Some KInfinity"
| "hash_key JNegInfinity = Some KNegInfinity"
| "hash_key JNaN = Some KNaN"
| "hash_key (JStr s) = Some (KStr s)"
| "hash_key (JList xs) = None"
| "hash_key (JObj kvs) = None"

text \<open>
  An entry of \<^verbatim>\<open>progress.errors\<close>: a dictionary whose \<^verbatim>\<open>type\<close> is \<^verbatim>\<open>parse_error\<close>
  (symbol, error, page), \<^verbatim>\<open>api_error\<close> (page, error, response snippet) or
  \<^verbatim>\<open>unexpected_error\<close> (page, error).
\<close>

datatype error_sample =
    ParseErrorSample json pyerror nat
  | ApiErrorSample nat string "pytext option"
  | UnexpectedErrorSample nat string

text \<open>
  \<^verbatim>\<open>FetchProgress\<close>; \<^verbatim>\<open>start_time\<close> and \<^verbatim>\<open>duration\<close> read the clock and are left out.
\<close>

record FetchProgress =
  page_no :: nat
  total_records :: nat
  unique_symbols :: "pykey fset"
  failed_pages :: nat
  retry_count :: nat
  errors :: "error_sample list"

definition new_progress :: FetchProgress where
  "new_progress = \<lparr>page_no = 0, total_records = 0, unique_symbols = {||}, failed_pages = 0,
     retry_count = 0, errors = []\<rparr>"

definition unique_count :: "FetchProgress \<Rightarrow> nat" where
  "unique_count p = fcard (unique_symbols p)"

definition MAX_CONSECUTIVE_FAILURES :: nat where
  "MAX_CONSECUTIVE_FAILURES = 3"

definition MAX_PAGES :: nat where
  "MAX_PAGES = 500"

definition MAX_ERROR_SAMPLES :: nat where
  "MAX_ERROR_SAMPLES = 10"

text \<open>
  \<^verbatim>\<open>int(x)\<close> on a value of the page metadata: the integer, a \<^verbatim>\<open>ValueError\<close> or
  \<^verbatim>\<open>TypeError\<close>, which \<^verbatim>\<open>_should_stop\<close> catches, or the \<^verbatim>\<open>OverflowError\<close> of an
  infinite float, which it does not catch. Python's reading of a string as an integer
  is the parameter \<open>int_of_str\<close>, \<open>None\<close> being its \<^verbatim>\<open>ValueError\<close>.
\<close>

datatype conversion = Converted int | Caught | Overflow

fun py_int :: "(string \<Rightarrow> int option) \<Rightarrow> json \<Rightarrow> conversion" where
  "py_int int_of_str JNull = Caught"
| "py_int int_of_str (JBool b) = Converted (if b then 1 else 0)"
| "py_int int_of_str (JInt n) = Converted n"
| "py_int int_of_str (JFloat q) = Converted (if 0 \<le> q then \<lfloor>q\<rfloor> else \<lceil>q\<rceil>)"
| "py_int int_of_str JInfinity = Overflow"
| "py_int int_of_str JNegInfinity = Overflow"
| "py_int int_of_str JNaN = Caught"
| "py_int int_of_str (JStr s) = (case int_of_str s of None \<Rightarrow> Caught | Some n \<Rightarrow> Converted n)"
| "py_int int_of_str (JList xs) = Caught"
| "py_int int_of_str (JObj kvs) = Caught"

text \<open>
  \<^verbatim>\<open>total is not None\<close> and, in the \<^verbatim>\<open>try\<close>, \<^verbatim>\<open>count >= int(total)\<close>: a caught
  exception is read as no, the \<^verbatim>\<open>OverflowError\<close> leaves \<^verbatim>\<open>_should_stop\<close>.
\<close>

definition reached :: "(string \<Rightarrow> int option) \<Rightarrow> nat \<Rightarrow> json \<Rightarrow> pyerror + bool" where
  "reached int_of_str cnt tot =
    (if tot = JNull then Inr False
     else case py_int int_of_str tot of
            Converted n \<Rightarrow> Inr (n \<le> int cnt)
          | Caught \<Rightarrow> Inr False
          | Overflow \<Rightarrow> Inl OverflowError)"

text \<open>\<^verbatim>\<open>_should_stop\<close>: the answer, or the exception that leaves it.\<close>

definition should_stop ::
  "(string \<Rightarrow> int option) \<Rightarrow> SseConfig \<Rightarrow> pydict list \<Rightarrow> pydict \<Rightarrow> FetchProgress \<Rightarrow> nat
    \<Rightarrow> pyerror + bool" where
  "should_stop int_of_str cfg records page_help progress consecutive_empty =
    (let total_pages = py_or (dict_get page_help ''totalPages'') (dict_get page_help ''totalPage'')
     in case reached int_of_str (page_no progress) total_pages of
          Inl e \<Rightarrow> Inl e
        | Inr True \<Rightarrow> Inr True
        | Inr False \<Rightarrow>
           (let tot = dict_get page_help ''total''
            in case reached int_of_str (total_records progress) tot of
                 Inl e \<Rightarrow> Inl e
               | Inr True \<Rightarrow> Inr True
               | Inr False \<Rightarrow>
                   if records = [] then Inr True
                   else if int (length records) < page_size (pagination cfg) then Inr True
                   else if MAX_CONSECUTIVE_FAILURES \<le> consecutive_empty then Inr True
                   else if MAX_PAGES \<le> page_no progress then Inr True
                   else Inr False))"

text \<open>\<^verbatim>\<open>symbol and symbol != "-"\<close> on a value of a raw record.\<close>

definition usable_code :: "json \<Rightarrow> bool" where
  "usable_code v = (truthy v \<and> v \<noteq> JStr ''-'')"

definition get_symbol :: "pydict \<Rightarrow> json option" where
  "get_symbol rd =
    (if usable_code (dict_get rd ''A_STOCK_CODE'') then Some (dict_get rd ''A_STOCK_CODE'')
     else if usable_code (dict_get rd ''B_STOCK_CODE'') then Some (dict_get rd ''B_STOCK_CODE'')
     else if usable_code (dict_get rd ''COMPANY_CODE'') then Some (dict_get rd ''COMPANY_CODE'')
     else None)"

text \<open>\<^verbatim>\<open>str(n)\<close> for a page number.\<close>

fun str_nat :: "nat \<Rightarrow> string" where
  "str_nat n =
    (if n < 10 then [''0123456789'' ! n]
     else str_nat (n div 10) @ [''0123456789'' ! (n mod 10)])"

definition build_source_url :: "SseConfig \<Rightarrow> nat \<Rightarrow> string" where
  "build_source_url cfg pn =
    endpoint cfg @ ''?sqlId=''
      @ (case map_of (query cfg) ''sqlId'' of None \<Rightarrow> ''None'' | Some v \<Rightarrow> v)
      @ ''&STOCK_TYPE=''
      @ (case map_of (filters cfg) ''STOCK_TYPE'' of None \<Rightarrow> ''1'' | Some v \<Rightarrow> v)
      @ ''&pageNo='' @ str_nat pn"

text \<open>What the generator yields: the validated record, the source URL, the timestamp.\<close>

type_synonym yielded = "RawSseRecord \<times> string \<times> datetime"

definition sample_error :: "error_sample \<Rightarrow> FetchProgress \<Rightarrow> FetchProgress" where
  "sample_error smp p =
    (if length (errors p) < MAX_ERROR_SAMPLES then p\<lparr>errors := errors p @ [smp]\<rparr> else p)"

text \<open>The text \<^verbatim>\<open>str(e)\<close> of the exceptions that the page loop samples.\<close>

definition overflow_message :: string where
  "overflow_message = ''cannot convert float infinity to integer''"

definition unhashable_message :: "json \<Rightarrow> string" where
  "unhashable_message v =
    ''unhashable type: '' @ [CHR 0x27]
      @ (case v of JList xs \<Rightarrow> ''list'' | other \<Rightarrow> ''dict'') @ [CHR 0x27]"

text \<open>
  The loop over the records of one page (the \<^verbatim>\<open>for raw_data in records\<close> of
  \<^verbatim>\<open>iter_raw_records\<close>). It returns the progress, what was yielded, and the exception that
  left the loop, if any: the membership test raises on a symbol that cannot be hashed.
\<close>

fun process_records ::
  "string \<Rightarrow> datetime \<Rightarrow> pydict list \<Rightarrow> FetchProgress \<Rightarrow> FetchProgress \<times> yielded list \<times> string option" where
  "process_records url ts [] p = (p, [], None)"
| "process_records url ts (raw_data # rest) p =
    (case get_symbol raw_data of
       None \<Rightarrow> process_records url ts rest p
     | Some sy \<Rightarrow>
        (case hash_key sy of
           None \<Rightarrow> (p, [], Some (unhashable_message sy))
         | Some k \<Rightarrow>
            if k |\<in>| unique_symbols p then process_records url ts rest p
            else
              (let p1 = p\<lparr>unique_symbols := finsert k (unique_symbols p),
                          total_records := total_records p + 1\<rparr>
               in case model_validate raw_data of
                    Inr raw_record \<Rightarrow>
                      (case process_records url ts rest p1 of
                         (p2, outs, exn) \<Rightarrow> (p2, (raw_record, url, ts) # outs, exn))
                  | Inl e \<Rightarrow>
                      process_records url ts rest
                        (sample_error (ParseErrorSample sy e (page_no p1)) p1))))"

text \<open>
  What \<^verbatim>\<open>self.client.get_page_data(page_no)\<close> does: it returns the records (a list of
  dictionaries, as its annotation says) and the page metadata, raises \<^verbatim>\<open>SseApiError\<close>,
  or raises another exception (with its text).
\<close>

datatype page_result =
    PageData "pydict list" pydict
  | PageApiError SseApiError
  | PageException string

text \<open>
  The two \<^verbatim>\<open>except\<close> branches: count the failure, sample the error, and tell whether
  the loop breaks.
\<close>

definition page_failed ::
  "error_sample \<Rightarrow> FetchProgress \<Rightarrow> nat \<Rightarrow> (FetchProgress \<times> nat) \<times> bool" where
  "page_failed smp p consecutive_empty =
    (let ce = consecutive_empty + 1;
         p1 = p\<lparr>failed_pages := failed_pages p + 1\<rparr>
     in ((sample_error smp p1, ce), MAX_CONSECUTIVE_FAILURES \<le> ce))"

text \<open>\<^verbatim>\<open>e.response_text[:200] if e.response_text else None\<close>.\<close>

definition response_snippet :: "SseApiError \<Rightarrow> pytext option" where
  "response_snippet e =
    (case response_text e of None \<Rightarrow> None
     | Some t \<Rightarrow> if t = [] then None else Some (take 200 t))"

text \<open>
  \<^verbatim>\<open>time.sleep(secs)\<close> for a float: it raises \<^verbatim>\<open>ValueError\<close> for a negative delay and
  \<^verbatim>\<open>OverflowError\<close> for a delay whose nanoseconds do not fit a signed integer of 64
  bits, and otherwise returns after the delay. The nanoseconds are the product with
  \<^verbatim>\<open>1e9\<close> as a float, and the products that round to 2 to the power 63 or more are
  those from 2 to the power 63 less 2 to the power 9 on. The result is the text of the
  exception, if one is raised.
\<close>

definition time_sleep :: "rat \<Rightarrow> string option" where
  "time_sleep secs =
    (if 2 ^ 63 - 2 ^ 9 \<le> secs * 10 ^ 9 then Some ''timestamp out of range for platform time_t''
     else if secs < 0 then Some ''sleep length must be non-negative''
     else None)"

text \<open>The delay between pages: \<^verbatim>\<open>if page_delay > 0: time.sleep(page_delay)\<close>.\<close>

definition page_sleep :: "SseConfig \<Rightarrow> string option" where
  "page_sleep cfg =
    (if 0 < page_delay (rate_limit cfg) then time_sleep (page_delay (rate_limit cfg)) else None)"

text \<open>
  One turn of the \<^verbatim>\<open>while True\<close> loop, for the result of the page request. The state
  is the progress and \<^verbatim>\<open>consecutive_empty\<close>; the result says whether the loop breaks.
  The record loop, the stop check and the delay between pages run inside the \<^verbatim>\<open>try\<close>,
  so an exception that leaves one of them is handled by \<^verbatim>\<open>except Exception\<close> after the
  counter was reset.
\<close>

definition page_iteration ::
  "(string \<Rightarrow> int option) \<Rightarrow> SseConfig \<Rightarrow> datetime \<Rightarrow> page_result \<Rightarrow> FetchProgress \<times> nat
     \<Rightarrow> (FetchProgress \<times> nat) \<times> yielded list \<times> bool" where
  "page_iteration int_of_str cfg ts res st =
    (let p = (fst st)\<lparr>page_no := page_no (fst st) + 1\<rparr>;
         url = build_source_url cfg (page_no p)
     in case res of
          PageData records page_help \<Rightarrow>
            (case process_records url ts records p of
               (p1, outs, None) \<Rightarrow>
                 (case should_stop int_of_str cfg records page_help p1 0 of
                    Inr stop \<Rightarrow>
                      if stop then ((p1, 0), outs, True)
                      else
                        (case page_sleep cfg of
                           None \<Rightarrow> ((p1, 0), outs, False)
                         | Some msg \<Rightarrow>
                            (case page_failed (UnexpectedErrorSample (page_no p1) msg) p1 0 of
                               (st1, stop) \<Rightarrow> (st1, outs, stop)))
                  | Inl e \<Rightarrow>
                     (case page_failed (UnexpectedErrorSample (page_no p1) overflow_message) p1 0 of
                        (st1, stop) \<Rightarrow> (st1, outs, stop)))
             | (p1, outs, Some msg) \<Rightarrow>
                 (case page_failed (UnexpectedErrorSample (page_no p1) msg) p1 0 of
                    (st1, stop) \<Rightarrow> (st1, outs, stop)))
        | PageApiError e \<Rightarrow>
            (case page_failed (ApiErrorSample (page_no p) (message e) (response_snippet e)) p (snd st) of
               (st1, stop) \<Rightarrow> (st1, [], stop))
        | PageException msg \<Rightarrow>
            (case page_failed (UnexpectedErrorSample (page_no p) msg) p (snd st) of
               (st1, stop) \<Rightarrow> (st1, [], stop)))"

text \<open>
  The loop over the pages. The results of the page requests are given in the order of
  the requests; the loop may never break, so it runs as far as the results go. The last
  component says that the loop broke (the generator returned); when it is \<open>False\<close> the
  loop is about to request a page beyond the given results.
\<close>

fun iter_pages ::
  "(string \<Rightarrow> int option) \<Rightarrow> SseConfig \<Rightarrow> datetime \<Rightarrow> page_result list \<Rightarrow> FetchProgress \<times> nat
     \<Rightarrow> (FetchProgress \<times> nat) \<times> yielded list \<times> bool" where
  "iter_pages int_of_str cfg ts [] st = (st, [], False)"
| "iter_pages int_of_str cfg ts (res # rest) st =
    (case page_iteration int_of_str cfg ts res st of
       (st1, outs, stop) \<Rightarrow>
         if stop then (st1, outs, True)
         else (case iter_pages int_of_str cfg ts rest st1 of
                 (st2, outs2, halted) \<Rightarrow> (st2, outs @ outs2, halted)))"

definition iter_raw_records ::
  "(string \<Rightarrow> int option) \<Rightarrow> SseConfig \<Rightarrow> datetime \<Rightarrow> page_result list
     \<Rightarrow> (FetchProgress \<times> nat) \<times> yielded list \<times> bool" where
  "iter_raw_records int_of_str cfg ts results = iter_pages int_of_str cfg ts results (new_progress, 0)"

section \<open>Transport client (\<^verbatim>\<open>fetchers/sse/client.py\<close>)\<close>

text \<open>
  The characters for which \<^verbatim>\<open>str.isspace\<close> holds; \<^verbatim>\<open>str.strip\<close> and the class
  \<^verbatim>\<open>\s\<close> of \<^verbatim>\<open>re\<close> use them.
\<close>

definition is_space :: "nat \<Rightarrow> bool" where
  "is_space c =
    ((9 \<le> c \<and> c \<le> 13) \<or> (28 \<le> c \<and> c \<le> 32) \<or> c = 0x85 \<or> c = 0xA0 \<or> c = 0x1680
      \<or> (0x2000 \<le> c \<and> c \<le> 0x200A) \<or> c = 0x2028 \<or> c = 0x2029 \<or> c = 0x202F
      \<or> c = 0x205F \<or> c = 0x3000)"

definition strip :: "pytext \<Rightarrow> pytext" where
  "strip t = rev (dropWhile is_space (rev (dropWhile is_space t)))"

text \<open>The code points of an ASCII literal.\<close>

definition ascii :: "string \<Rightarrow> pytext" where
  "ascii s = map of_char s"

text \<open>\<^verbatim>\<open>needle in text\<close> and \<^verbatim>\<open>text.startswith(p)\<close>.\<close>

definition starts_with :: "pytext \<Rightarrow> pytext \<Rightarrow> bool" where
  "starts_with p t = (take (length p) t = p)"

fun contains_text :: "pytext \<Rightarrow> pytext \<Rightarrow> bool" where
  "contains_text needle [] = (needle = [])"
| "contains_text needle (c # cs) = (starts_with needle (c # cs) \<or> contains_text needle cs)"

text \<open>The marker of a busy server, four Chinese characters.\<close>

definition busy_marker :: pytext where
  "busy_marker = [0x7CFB, 0x7EDF, 0x7E41, 0x5FD9]"

text \<open>
  The tail \<^verbatim>\<open>(.*)\s*\);?\s*$\<close> of both patterns, under \<^verbatim>\<open>re.DOTALL\<close>: the group is
  greedy, so it is everything before the last closing parenthesis, which must end the
  text but for an optional semicolon and white space.
\<close>

definition wrapper_group :: "pytext \<Rightarrow> pytext option" where
  "wrapper_group body =
    (case dropWhile is_space (rev body) of
       [] \<Rightarrow> None
     | c1 # r1 \<Rightarrow>
        if c1 = 41 then Some (rev r1)
        else if c1 = 59 then
          (case r1 of [] \<Rightarrow> None | c2 # r2 \<Rightarrow> if c2 = 41 then Some (rev r2) else None)
        else None)"

text \<open>The part \<^verbatim>\<open>\s*\(\s*(.*)\s*\);?\s*$\<close> that follows the name of the callback.\<close>

definition match_call_body :: "pytext \<Rightarrow> pytext option" where
  "match_call_body t =
    (case dropWhile is_space t of
       [] \<Rightarrow> None
     | c # rest \<Rightarrow> if c = 40 then wrapper_group (dropWhile is_space rest) else None)"

text \<open>The exact pattern: the escaped callback name, literally, then the call.\<close>

definition match_exact :: "pytext \<Rightarrow> pytext \<Rightarrow> pytext option" where
  "match_exact callback_name t =
    (if starts_with callback_name t then match_call_body (drop (length callback_name) t)
     else None)"

text \<open>
  The lenient pattern \<^verbatim>\<open>^\w+\s*\(...\<close>: one or more word characters, then the call.
  A word character is an underscore or an alphanumeric character of Unicode, given by
  the parameter \<open>is_alnum\<close>.
\<close>

definition match_lenient :: "(nat \<Rightarrow> bool) \<Rightarrow> pytext \<Rightarrow> pytext option" where
  "match_lenient is_alnum t =
    (let is_word = (\<lambda>c. is_alnum c \<or> c = 95)
     in if takeWhile is_word t = [] then None else match_call_body (dropWhile is_word t))"

text \<open>
  What \<^verbatim>\<open>json.loads\<close> does with a text: it returns a value, raises
  \<^verbatim>\<open>JSONDecodeError\<close> (with its text), or raises another exception, given by its class
  and its message, such as the \<^verbatim>\<open>ValueError\<close> of an integer of more than 4300 digits
  or \<^verbatim>\<open>RecursionError\<close>. What \<^verbatim>\<open>_parse_jsonp\<close> raises is an \<^verbatim>\<open>SseApiError\<close> or such
  an exception.
\<close>

datatype loads_result = Loaded json | JSONDecodeError string | LoadsRaised string string

datatype raised = RaisedApiError SseApiError | RaisedOther string string

text \<open>
  \<^verbatim>\<open>_parse_jsonp\<close>. The parser \<^verbatim>\<open>json.loads\<close> is the parameter \<open>json_loads\<close>. Only its
  \<^verbatim>\<open>JSONDecodeError\<close> is caught and turned into an \<^verbatim>\<open>SseApiError\<close>.
\<close>

definition parse_jsonp ::
  "(pytext \<Rightarrow> loads_result) \<Rightarrow> (nat \<Rightarrow> bool) \<Rightarrow> pytext \<Rightarrow> pytext \<Rightarrow> raised + json" where
  "parse_jsonp json_loads is_alnum text0 callback_name =
    (let text = strip text0
     in if contains_text (ascii ''System Error'') text \<or> contains_text busy_marker text
        then Inl (RaisedApiError
               (SseApiError ''SSE API returned System Error'' (Some (take 500 text))))
        else if starts_with (ascii ''<!'') text \<or> starts_with (ascii ''<html'') text
        then Inl (RaisedApiError
               (SseApiError ''SSE API returned HTML error page'' (Some (take 500 text))))
        else
          (case (case match_exact callback_name text of
                   None \<Rightarrow> match_lenient is_alnum text
                 | Some g \<Rightarrow> Some g) of
             None \<Rightarrow>
               Inl (RaisedApiError
                 (SseApiError ''Failed to parse JSONP response'' (Some (take 500 text))))
           | Some json_str \<Rightarrow>
              (case json_loads json_str of
                 Loaded v \<Rightarrow> Inr v
               | JSONDecodeError msg \<Rightarrow>
                   Inl (RaisedApiError
                     (SseApiError (''Failed to parse JSON: '' @ msg) (Some (take 500 json_str))))
               | LoadsRaised cls msg \<Rightarrow> Inl (RaisedOther cls msg))))"

text \<open>
  What one call of \<^verbatim>\<open>_do_request\<close> does: it returns the response (its text), or raises
  a timeout, a network error, the \<^verbatim>\<open>HTTPStatusError\<close> of \<^verbatim>\<open>raise_for_status\<close>, or
  something else.
\<close>

datatype attempt =
    Responded pytext
  | TimeoutException
  | NetworkError
  | HTTPStatusError nat
  | OtherError string

text \<open>\<^verbatim>\<open>retry_if_exception_type((httpx.TimeoutException, httpx.NetworkError))\<close>.\<close>

fun retried :: "attempt \<Rightarrow> bool" where
  "retried TimeoutException = True"
| "retried NetworkError = True"
| "retried other = False"

text \<open>
  The wait strategy \<^verbatim>\<open>wait_exponential(multiplier, min)\<close> of the library tenacity,
  with its defaults \<^verbatim>\<open>exp_base = 2\<close> and \<^verbatim>\<open>max = sys.maxsize / 2\<close> (a float, which is
  2 to the power 62): after attempt
  \<open>n\<close> it waits \<^verbatim>\<open>max(max(0, min), min(multiplier * exp_base ** (n - 1), max))\<close>.
  Delays are modelled by their exact values.
\<close>

definition MAX_WAIT :: rat where
  "MAX_WAIT = 2 ^ 62"

definition wait_exponential :: "rat \<Rightarrow> rat \<Rightarrow> nat \<Rightarrow> rat" where
  "wait_exponential multiplier min_wait attempt_number =
    max (max 0 min_wait) (min (multiplier * 2 ^ (attempt_number - 1)) MAX_WAIT)"

text \<open>
  The loop of tenacity's \<^verbatim>\<open>retry\<close> around \<^verbatim>\<open>_do_request\<close>, from attempt \<open>n\<close> on, with
  \<^verbatim>\<open>stop_after_attempt(max_attempts)\<close> and \<^verbatim>\<open>reraise=True\<close>: an outcome that is not
  retried is returned or raised as it is; after a retried one the loop stops when
  \<open>n \<ge> max_attempts\<close> and raises it, and otherwise sleeps and tries again. The result is
  the last outcome and the delays slept, in order.
\<close>

function do_request_from :: "RetryConfig \<Rightarrow> (nat \<Rightarrow> attempt) \<Rightarrow> nat \<Rightarrow> attempt \<times> rat list" where
  "do_request_from rc outcome n =
    (if retried (outcome n) \<and> int n < max_attempts rc
     then (case do_request_from rc outcome (Suc n) of
             (res, sleeps) \<Rightarrow>
               (res, wait_exponential (backoff_multiplier rc) (initial_delay rc) n # sleeps))
     else (outcome n, []))"
  by pat_completeness auto
termination
  by (relation "measure (\<lambda>(rc, outcome, n). nat (max_attempts rc - int n))") auto

text \<open>\<^verbatim>\<open>_make_request\<close>: the attempts are numbered from 1.\<close>

definition make_request :: "SseConfig \<Rightarrow> (nat \<Rightarrow> attempt) \<Rightarrow> attempt \<times> rat list" where
  "make_request cfg outcome = do_request_from (retry cfg) outcome 1"

section \<open>Snapshot storage and manifest (\<^verbatim>\<open>storage/universe.py\<close>, \<^verbatim>\<open>models/manifest.py\<close>)\<close>

text \<open>
  The fields of \<^verbatim>\<open>FetchStats\<close> and \<^verbatim>\<open>UniverseManifest\<close> that share a name with a field
  of another class carry the prefix \<open>stats_\<close> or \<open>manifest_\<close>. The writer is modelled by
  its counters.
\<close>

record SnapshotWriter =
  writer_exchange :: string
  category_counts :: "(string \<times> nat) list"
  total_count :: nat

definition new_writer :: "string \<Rightarrow> SnapshotWriter" where
  "new_writer exch = \<lparr>writer_exchange = exch, category_counts = [], total_count = 0\<rparr>"

definition safe_filename :: "string \<Rightarrow> string" where
  "safe_filename s =
    map (\<lambda>c. if c \<in> set [CHR ''/'', CHR 0x5C, CHR '':'', CHR ''*'', CHR ''?'', CHR 0x22,
                          CHR ''<'', CHR ''>'', CHR ''|''] then CHR ''_'' else c) s"

definition write_record :: "StockRecord \<Rightarrow> SnapshotWriter \<Rightarrow> SnapshotWriter" where
  "write_record rec w =
    w\<lparr>category_counts :=
        AList.update (category rec)
          (Suc (case map_of (category_counts w) (category rec) of None \<Rightarrow> 0 | Some n \<Rightarrow> n))
          (category_counts w),
      total_count := total_count w + 1\<rparr>"

definition get_stats :: "SnapshotWriter \<Rightarrow> (string \<times> nat) list" where
  "get_stats w = category_counts w"

definition get_total_count :: "SnapshotWriter \<Rightarrow> nat" where
  "get_total_count w = total_count w"

definition get_output_files :: "SnapshotWriter \<Rightarrow> string list" where
  "get_output_files w =
    sort (map (\<lambda>kv. writer_exchange w @ ''/class='' @ safe_filename (fst kv) @ ''.jsonl'')
            (category_counts w))"

record FetchStats =
  stats_total_pages :: int
  stats_total_records :: nat
  stats_unique_records :: nat
  stats_failed_pages :: nat
  stats_retry_count :: nat
  stats_duration_seconds :: rat
  stats_categories :: "(string \<times> nat) list"

record UniverseManifest =
  manifest_exchange :: string
  manifest_asof :: datetime
  version :: string
  manifest_endpoint :: string
  query_params :: "(string \<times> string) list"
  manifest_filters :: "(string \<times> string) list"
  manifest_pagination :: pydict
  manifest_headers :: "(string \<times> string) list"
  manifest_rate_limit :: "(string \<times> rat) list"
  manifest_retry :: pydict
  manifest_timeout :: rat
  stats :: FetchStats
  manifest_errors :: "pydict list"
  output_files :: "string list"

definition build_manifest ::
  "string \<Rightarrow> datetime \<Rightarrow> SseConfig \<Rightarrow> SnapshotWriter \<Rightarrow> rat \<Rightarrow> nat \<Rightarrow> pydict list \<Rightarrow> UniverseManifest" where
  "build_manifest exch ts cfg w duration failed errs =
    \<lparr>manifest_exchange = exch, manifest_asof = ts, version = ''1.0'',
     manifest_endpoint = endpoint cfg, query_params = query cfg, manifest_filters = filters cfg,
     manifest_pagination =
       [(''page_size'', JInt (page_size (pagination cfg))),
        (''cache_size'', JInt (cache_size (pagination cfg)))],
     manifest_headers = get_safe_headers cfg,
     manifest_rate_limit =
       [(''requests_per_second'', requests_per_second (rate_limit cfg)),
        (''page_delay'', page_delay (rate_limit cfg))],
     manifest_retry =
       [(''max_attempts'', JInt (max_attempts (retry cfg))),
        (''backoff_multiplier'', JFloat (backoff_multiplier (retry cfg))),
        (''initial_delay'', JFloat (initial_delay (retry cfg)))],
     manifest_timeout = timeout cfg,
     stats = \<lparr>stats_total_pages = 0, stats_total_records = get_total_count w,
       stats_unique_records = get_total_count w, stats_failed_pages = failed,
       stats_retry_count = 0, stats_duration_seconds = duration,
       stats_categories = get_stats w\<rparr>,
     manifest_errors = errs, output_files = get_output_files w\<rparr>"

definition str_dict :: "(string \<times> string) list \<Rightarrow> json" where
  "str_dict d = JObj (map (\<lambda>kv. (fst kv, JStr (snd kv))) d)"

text \<open>\<^verbatim>\<open>model_dump(mode="json")\<close> of the manifest: a dictionary of JSON values.\<close>

definition manifest_dump :: "UniverseManifest \<Rightarrow> pydict" where
  "manifest_dump m =
    [(''exchange'', JStr (manifest_exchange m)), (''asof'', JStr (manifest_asof m)),
     (''version'', JStr (version m)), (''endpoint'', JStr (manifest_endpoint m)),
     (''query_params'', str_dict (query_params m)), (''filters'', str_dict (manifest_filters m)),
     (''pagination'', JObj (manifest_pagination m)), (''headers'', str_dict (manifest_headers m)),
     (''rate_limit'', JObj (map (\<lambda>kv. (fst kv, JFloat (snd kv))) (manifest_rate_limit m))),
     (''retry'', JObj (manifest_retry m)), (''timeout'', JFloat (manifest_timeout m)),
     (''stats'', JObj
        [(''total_pages'', JInt (stats_total_pages (stats m))),
         (''total_records'', JInt (int (stats_total_records (stats m)))),
         (''unique_records'', JInt (int (stats_unique_records (stats m)))),
         (''failed_pages'', JInt (int (stats_failed_pages (stats m)))),
         (''retry_count'', JInt (int (stats_retry_count (stats m)))),
         (''duration_seconds'', JFloat (stats_duration_seconds (stats m))),
         (''categories'', JObj (map (\<lambda>kv. (fst kv, JInt (int (snd kv)))) (stats_categories (stats m))))]),
     (''errors'', JList (map JObj (manifest_errors m))),
     (''output_files'', JList (map JStr (output_files m)))]"

text \<open>
  \<^verbatim>\<open>to_safe_dict\<close>: the dump without the key \<^verbatim>\<open>cookies\<close>. \<^verbatim>\<open>write_manifest\<close> writes
  this dictionary as JSON text, so it stands for the written manifest.
\<close>

definition to_safe_dict :: "UniverseManifest \<Rightarrow> pydict" where
  "to_safe_dict m = filter (\<lambda>kv. fst kv \<noteq> ''cookies'') (manifest_dump m)"

section \<open>The command \<^verbatim>\<open>fetch\<close> (\<^verbatim>\<open>cli/universe.py\<close>)\<close>

text \<open>
  The body of the \<^verbatim>\<open>for\<close> loop over the generator: normalise, write, count; an
  exception is sampled (at most ten), its text standing for \<^verbatim>\<open>str(e)\<close>.
\<close>

fun consume_records ::
  "string \<Rightarrow> bool \<Rightarrow> yielded list \<Rightarrow> SnapshotWriter \<times> nat \<times> pydict list
    \<Rightarrow> SnapshotWriter \<times> nat \<times> pydict list" where
  "consume_records stock_type include_raw [] acc = acc"
| "consume_records stock_type include_raw ((raw_record, url, record_asof) # rest) (w, n, errs) =
    (case normalize_sse_record raw_record url record_asof stock_type include_raw of
       Inr normalized \<Rightarrow>
         consume_records stock_type include_raw rest (write_record normalized w, n + 1, errs)
     | Inl e \<Rightarrow>
         consume_records stock_type include_raw rest
           (w, n, if length errs < 10
                  then errs @ [[(''type'', JStr ''normalize_error''), (''error'', JStr ''ValueError'')]]
                  else errs))"

text \<open>
  \<^verbatim>\<open>fetch_universe\<close> for the exchange \<^verbatim>\<open>sse\<close>, from the loaded configuration to the
  manifest that is written. The results of the page requests, the value of the client's
  \<^verbatim>\<open>_last_request_time\<close> after the run and the measured duration are given. There is
  a manifest only when the generator returns.
\<close>

definition fetch_universe ::
  "(string \<Rightarrow> int option) \<Rightarrow> SseConfig \<Rightarrow> string \<Rightarrow> int \<Rightarrow> bool \<Rightarrow> datetime \<Rightarrow> page_result list
    \<Rightarrow> rat \<Rightarrow> rat \<Rightarrow> UniverseManifest option" where
  "fetch_universe int_of_str config stock_type pg_size include_raw ts results last_request_time duration =
    (let cfg = config\<lparr>filters := AList.update ''STOCK_TYPE'' stock_type (filters config),
                      pagination := (pagination config)\<lparr>page_size := pg_size\<rparr>\<rparr>
     in case iter_raw_records int_of_str cfg ts results of
          (st, outs, halted) \<Rightarrow>
            if \<not> halted then None
            else
              (case consume_records stock_type include_raw outs (new_writer ''Shanghai_Stocks'', 0, []) of
                 (w, n, errs) \<Rightarrow>
                   (let manifest = build_manifest ''Shanghai_Stocks'' ts cfg w duration 0 errs
                    in Some (manifest\<lparr>stats := (stats manifest)
                         \<lparr>stats_total_pages := (if 0 < last_request_time then 1 else 0)\<rparr>\<rparr>))))"

text \<open>\<^verbatim>\<open>get_progress_stats\<close> reports the engine's own page counter.\<close>

definition progress_total_pages :: "FetchProgress \<Rightarrow> nat" where
  "progress_total_pages progress = page_no progress"

section \<open>Notions used to state the properties\<close>

text \<open>
  The key under which the engine deduplicates a raw record: the hash key of its symbol.
  There is none when the record has no usable symbol, or when the symbol cannot be
  hashed; in the second case the membership test raises.
\<close>

definition symbol_key :: "pydict \<Rightarrow> pykey option" where
  "symbol_key rd = (case get_symbol rd of None \<Rightarrow> None | Some sy \<Rightarrow> hash_key sy)"

definition raises_on :: "pydict \<Rightarrow> bool" where
  "raises_on rd = (case get_symbol rd of None \<Rightarrow> False | Some sy \<Rightarrow> hash_key sy = None)"

text \<open>The symbol of a validated record, and the key of what the generator yields.\<close>

definition record_symbol :: "RawSseRecord \<Rightarrow> string option" where
  "record_symbol r = first_usable_symbol [A_STOCK_CODE r, B_STOCK_CODE r, COMPANY_CODE r]"

definition yielded_key :: "yielded \<Rightarrow> pykey option" where
  "yielded_key y = map_option KStr (record_symbol (fst y))"

definition validated :: "pydict \<Rightarrow> RawSseRecord option" where
  "validated rd = (case model_validate rd of Inl e \<Rightarrow> None | Inr r \<Rightarrow> Some r)"

text \<open>
  The records of a page that the loop goes through: those before the first one on which
  the membership test raises. The records a run has gone through when it has requested
  \<open>n\<close> pages are those of its first \<open>n\<close> page results, in page order.
\<close>

definition page_records :: "page_result \<Rightarrow> pydict list" where
  "page_records res =
    (case res of
       PageData records page_help \<Rightarrow> takeWhile (\<lambda>rd. \<not> raises_on rd) records
     | PageApiError e \<Rightarrow> []
     | PageException msg \<Rightarrow> [])"

definition processed_records :: "page_result list \<Rightarrow> nat \<Rightarrow> pydict list" where
  "processed_records results n = concat (map page_records (take n results))"

text \<open>
  First occurrence wins, in the words of the specification: of a list of records, those
  that have a key which no earlier record has; \<open>earlier\<close> holds the records before the
  list.
\<close>

fun first_occurrences_after :: "pydict list \<Rightarrow> pydict list \<Rightarrow> pydict list" where
  "first_occurrences_after earlier [] = []"
| "first_occurrences_after earlier (rd # rest) =
    (if symbol_key rd \<noteq> None \<and> symbol_key rd \<notin> set (map symbol_key earlier)
     then rd # first_occurrences_after (earlier @ [rd]) rest
     else first_occurrences_after (earlier @ [rd]) rest)"

definition first_occurrences :: "pydict list \<Rightarrow> pydict list" where
  "first_occurrences records = first_occurrences_after [] records"



text \<open>A page request that failed.\<close>

fun is_failure :: "page_result \<Rightarrow> bool" where
  "is_failure (PageData records page_help) = False"
| "is_failure (PageApiError e) = True"
| "is_failure (PageException msg) = True"

text \<open>
  The step of the record loop that marks a key as seen, and the invariant that the seen
  set holds the keys of the records gone through so far.
\<close>

definition mark_seen :: "pykey \<Rightarrow> FetchProgress \<Rightarrow> FetchProgress" where
  "mark_seen k p = p\<lparr>unique_symbols := finsert k (unique_symbols p), total_records := total_records p + 1\<rparr>"

definition seen_keys_of :: "FetchProgress \<Rightarrow> pydict list \<Rightarrow> bool" where
  "seen_keys_of p earlier = (\<forall>k. k |\<in>| unique_symbols p \<longleftrightarrow> Some k \<in> set (map symbol_key earlier))"

text \<open>
  The conditions and the step of \<^verbatim>\<open>_parse_jsonp\<close>, by name: the text carries a marker of
  a busy server, the text starts as an HTML page, and the interior of the wrapper is
  parsed as JSON, the decode error of the parser becoming an \<^verbatim>\<open>SseApiError\<close> with a
  snippet.
\<close>

definition server_busy :: "pytext \<Rightarrow> bool" where
  "server_busy t = (contains_text (ascii ''System Error'') t \<or> contains_text busy_marker t)"

definition html_page :: "pytext \<Rightarrow> bool" where
  "html_page t = (starts_with (ascii ''<!'') t \<or> starts_with (ascii ''<html'') t)"

definition decode_json :: "(pytext \<Rightarrow> loads_result) \<Rightarrow> pytext \<Rightarrow> raised + json" where
  "decode_json json_loads json_str =
    (case json_loads json_str of
       Loaded v \<Rightarrow> Inr v
     | JSONDecodeError msg \<Rightarrow>
         Inl (RaisedApiError
           (SseApiError (''Failed to parse JSON: '' @ msg) (Some (take 500 json_str))))
     | LoadsRaised cls msg \<Rightarrow> Inl (RaisedOther cls msg))"

text \<open>
  \<^verbatim>\<open>json.loads\<close> on the decimal digits of an integer (a zero, or digits that start
  with another digit): the integer, and beyond 4300 digits the \<^verbatim>\<open>ValueError\<close> of Python's
  limit on the conversion of integer strings. On any other text this stand-in reports a
  decode error.
\<close>

definition is_digit :: "nat \<Rightarrow> bool" where
  "is_digit c = (48 \<le> c \<and> c \<le> 57)"

definition digit_limit_message :: "nat \<Rightarrow> string" where
  "digit_limit_message n =
    ''Exceeds the limit (4300 digits) for integer string conversion: value has '' @ str_nat n
      @ '' digits; use sys.set_int_max_str_digits() to increase the limit''"

definition loads_integer :: "pytext \<Rightarrow> loads_result" where
  "loads_integer t =
    (if t \<noteq> [] \<and> list_all is_digit t \<and> (t = [48] \<or> 49 \<le> hd t)
     then if 4300 < length t then LoadsRaised ''ValueError'' (digit_limit_message (length t))
          else Loaded (JInt (foldl (\<lambda>n c. 10 * n + int (c - 48)) 0 t))
     else JSONDecodeError ''Expecting value: line 1 column 1 (char 0)'')"

text \<open>
  A response of the server to the callback \<^verbatim>\<open>jsonpCallback12345678\<close> whose interior is
  an integer of 5000 digits.
\<close>

definition long_integer_body :: pytext where
  "long_integer_body = ascii ''jsonpCallback12345678'' @ 40 # replicate 5000 49 @ [41]"

text \<open>The alphanumeric characters of ASCII.\<close>

definition ascii_alnum :: "nat \<Rightarrow> bool" where
  "ascii_alnum c = ((48 \<le> c \<and> c \<le> 57) \<or> (65 \<le> c \<and> c \<le> 90) \<or> (97 \<le> c \<and> c \<le> 122))"

section \<open>Example inputs\<close>

text \<open>The default configuration of \<^verbatim>\<open>SseConfig\<close>, with the filter of the command line.\<close>

definition example_config :: SseConfig where
  "example_config =
    \<lparr>endpoint = ''https://query.sse.com.cn/sseQuery/commonQuery.do'',
     query = [(''sqlId'', ''COMMON_SSE_CP_GPJCTPZ_GPLB_GP_L''), (''type'', ''inParams''),
              (''isPagination'', ''true'')],
     filters = [(''STOCK_TYPE'', ''1'')],
     pagination = \<lparr>page_size = 25, cache_size = 1\<rparr>,
     jsonp = \<lparr>param_name = ''jsonCallBack'', callback_prefix = ''jsonpCallback''\<rparr>,
     headers = [], cookies = [],
     rate_limit = \<lparr>requests_per_second = 2, page_delay = 1 / 2\<rparr>,
     retry = \<lparr>max_attempts = 3, backoff_multiplier = 2, initial_delay = 1\<rparr>,
     timeout = 30\<rparr>"

definition example_asof :: datetime where
  "example_asof = ''2026-01-30T12:00:00+00:00''"

definition record_600000 :: pydict where
  "record_600000 = [(''A_STOCK_CODE'', JStr ''600000''), (''SEC_NAME_CN'', JStr ''PF Bank'')]"

definition record_600004 :: pydict where
  "record_600004 = [(''A_STOCK_CODE'', JStr ''600004''), (''SEC_NAME_CN'', JStr ''Airport'')]"

definition record_600006 :: pydict where
  "record_600006 = [(''A_STOCK_CODE'', JStr ''600006''), (''SEC_NAME_CN'', JStr ''Motor'')]"

text \<open>A record of the B share board: the first code field holds the sentinel.\<close>

definition raw_b_share :: RawSseRecord where
  "raw_b_share =
    \<lparr>A_STOCK_CODE = Some ''-'', B_STOCK_CODE = Some ''900901'', COMPANY_CODE = Some ''600602'',
     SEC_NAME_CN = Some [], SEC_NAME_FULL = None, COMPANY_ABBR = Some ''INESA'',
     FULL_NAME = None, FULL_NAME_IN_ENGLISH = None, COMPANY_ABBR_EN = None, STOCK_TYPE = Some ''2'',
     LIST_BOARD = None, LIST_DATE = None, DELIST_DATE = None, CSRC_CODE = None,
     CSRC_CODE_DESC = None, AREA_NAME = None, AREA_NAME_DESC = None, STATE_CODE = None,
     STATE_CODE_STOCK = None, PRODUCT_STATUS = None, NUM = None, model_extra = []\<rparr>"

text \<open>
  A record whose name is a number, which fails validation, and one whose code is a list,
  which cannot be hashed.
\<close>

definition invalid_600000 :: pydict where
  "invalid_600000 = [(''A_STOCK_CODE'', JStr ''600000''), (''SEC_NAME_CN'', JInt 600000)]"

definition unhashable_record :: pydict where
  "unhashable_record = [(''A_STOCK_CODE'', JList [JStr ''600010''])]"

text \<open>A normalised record, and page metadata whose total is infinite.\<close>

definition stock_600000 :: StockRecord where
  "stock_600000 =
    \<lparr>exchange = ''Shanghai_Stocks'', symbol = ''600000'', name = ''PF Bank'', full_name = None,
     category = ''STOCK_TYPE_1'', list_date = None, csrc_code = None, csrc_desc = None,
     province = None, status = None, source_url = ''u'', asof = example_asof, raw = None\<rparr>"

definition infinite_total :: pydict where
  "infinite_total = [(''total'', JInfinity)]"


section \<open>Properties of the normaliser\<close>

text \<open>
  Claim C4. \<^verbatim>\<open>normalize_sse_record\<close> takes as symbol the first value among
  \<^verbatim>\<open>A_STOCK_CODE\<close>, \<^verbatim>\<open>B_STOCK_CODE\<close>, \<^verbatim>\<open>COMPANY_CODE\<close> that is not empty and not the
  sentinel \<open>-\<close>, and as name the first value among \<^verbatim>\<open>SEC_NAME_CN\<close>, \<^verbatim>\<open>COMPANY_ABBR\<close>,
  \<^verbatim>\<open>SEC_NAME_FULL\<close> that is not empty, the symbol when there is none; without a usable
  symbol it raises; every record it returns has a symbol and a name that are not empty.
\<close>

theorem normalize_symbol_and_name:
  "symbol_and_name (normalize_sse_record rw src_url ts stock_type include_raw) =
     (case first_usable_symbol [A_STOCK_CODE rw, B_STOCK_CODE rw, COMPANY_CODE rw] of
        None \<Rightarrow> Inl ValueError
      | Some sy \<Rightarrow>
          Inr (sy, case first_nonempty [SEC_NAME_CN rw, COMPANY_ABBR rw, SEC_NAME_FULL rw] of
                     None \<Rightarrow> sy | Some n \<Rightarrow> n))
   \<and> (case normalize_sse_record rw src_url ts stock_type include_raw of
        Inl e \<Rightarrow> e = ValueError
      | Inr r \<Rightarrow> symbol r \<noteq> [] \<and> name r \<noteq> [])"
  apply (cases "A_STOCK_CODE rw"; cases "B_STOCK_CODE rw"; cases "COMPANY_CODE rw";
      cases "SEC_NAME_CN rw"; cases "COMPANY_ABBR rw"; cases "SEC_NAME_FULL rw")
  apply (simp_all add: symbol_and_name_def normalize_sse_record_def first_usable_symbol_def
      first_nonempty_def no_symbol_def no_text_def Let_def
      split: option.splits list.splits)
  done

theorem normalize_symbol_and_name_witness:
  "symbol_and_name (normalize_sse_record raw_b_share ''u'' example_asof ''2'' False) =
     Inr (''900901'', ''INESA'')"
  using normalize_symbol_and_name [of raw_b_share "''u''" example_asof "''2''" False]
  by (simp add: raw_b_share_def first_usable_symbol_def first_nonempty_def List.map_filter_def)

section \<open>Properties of the transport client\<close>

text \<open>
  Claim C7, at the default retry configuration (three attempts, multiplier 2, initial
  delay 1) and at one with multiplier 3, every attempt timing out: the request is tried
  three times and the timeout is raised, but the delays slept are 2 and 4, and 3 and 6,
  not 1 and 2, and 1 and 3: the multiplier scales powers of two, and the initial delay
  is only a lower bound.
\<close>

theorem retry_delays_failing_input:
  "make_request example_config (\<lambda>n. TimeoutException) = (TimeoutException, [2, 4])
   \<and> make_request
        (example_config\<lparr>retry := \<lparr>max_attempts = 3, backoff_multiplier = 3, initial_delay = 1\<rparr>\<rparr>)
        (\<lambda>n. TimeoutException) = (TimeoutException, [3, 6])"
  by (simp add: make_request_def example_config_def wait_exponential_def MAX_WAIT_def)

section \<open>Properties of the manifest\<close>

text \<open>
  Claim C6, at a configuration with an \<^verbatim>\<open>Authorization\<close> header, a \<^verbatim>\<open>Cookie\<close> header
  and a cookie: the written manifest leaves out the \<^verbatim>\<open>Cookie\<close> header and carries the
  \<^verbatim>\<open>Authorization\<close> header with its credential.
\<close>

theorem manifest_headers_failing_input:
  "dict_get
     (to_safe_dict
        (build_manifest ''Shanghai_Stocks'' ts
           (example_config\<lparr>headers := [(''Authorization'', ''Bearer s3cret''), (''Cookie'', ''sid=1'')],
              cookies := [(''sid'', ''1'')]\<rparr>) w d 0 []))
     ''headers''
   = JObj [(''Authorization'', JStr ''Bearer s3cret'')]"
  by (simp add: to_safe_dict_def manifest_dump_def build_manifest_def dict_get_def
      get_safe_headers_def example_config_def str_dict_def lower_char_def)

text \<open>
  Claim C5, at a run of two pages (page size 2; a full page, then a short one): the
  engine requests two pages, as \<^verbatim>\<open>get_progress_stats\<close> would report, and the manifest
  reports one.
\<close>

theorem total_pages_statistic_failing_input:
  "progress_total_pages (fst (fst (iter_raw_records (\<lambda>s. None)
       (example_config\<lparr>pagination := \<lparr>page_size = 2, cache_size = 1\<rparr>\<rparr>) example_asof
       [PageData [record_600000, record_600004] [], PageData [record_600006] []]))) = 2
   \<and> map_option (\<lambda>m. stats_total_pages (stats m))
       (fetch_universe (\<lambda>s. None) example_config ''1'' 2 False example_asof
          [PageData [record_600000, record_600004] [], PageData [record_600006] []]
          1769774400 3) = Some 1"
  by (simp add: fetch_universe_def iter_raw_records_def page_iteration_def example_config_def
      new_progress_def get_symbol_def dict_get_def usable_code_def model_validate_def
      declared_fields_def should_stop_def reached_def py_or_def Let_def
      MAX_CONSECUTIVE_FAILURES_def MAX_PAGES_def build_manifest_def progress_total_pages_def
      page_sleep_def time_sleep_def
      record_600000_def record_600004_def record_600006_def split: prod.splits)

section \<open>Properties of the pagination engine\<close>

lemma process_records_step:
  obtains
    (NoSymbol) "symbol_key rd = None" "\<not> raises_on rd"
      "process_records url ts (rd # rest) p = process_records url ts rest p"
  | (Raises) sy where "get_symbol rd = Some sy" "symbol_key rd = None" "raises_on rd"
      "process_records url ts (rd # rest) p = (p, [], Some (unhashable_message sy))"
  | (Seen) k where "symbol_key rd = Some k" "\<not> raises_on rd" "k |\<in>| unique_symbols p"
      "process_records url ts (rd # rest) p = process_records url ts rest p"
  | (Valid) k r where "symbol_key rd = Some k" "\<not> raises_on rd" "k |\<notin>| unique_symbols p"
      "model_validate rd = Inr r"
      "process_records url ts (rd # rest) p =
         (case process_records url ts rest (mark_seen k p) of
            (p2, outs, exn) \<Rightarrow> (p2, (r, url, ts) # outs, exn))"
  | (Invalid) k sy e where "symbol_key rd = Some k" "\<not> raises_on rd" "k |\<notin>| unique_symbols p"
      "get_symbol rd = Some sy" "model_validate rd = Inl e"
      "process_records url ts (rd # rest) p =
         process_records url ts rest
           (sample_error (ParseErrorSample sy e (page_no p)) (mark_seen k p))"
proof (cases "get_symbol rd")
  case None
  then show ?thesis using NoSymbol by (simp add: symbol_key_def raises_on_def)
next
  case (Some sy)
  note sy = this
  show ?thesis
  proof (cases "hash_key sy")
    case None
    then show ?thesis using sy Raises by (simp add: symbol_key_def raises_on_def)
  next
    case (Some k)
    note k = this
    show ?thesis
    proof (cases "k |\<in>| unique_symbols p")
      case True
      then show ?thesis using sy k Seen by (simp add: symbol_key_def raises_on_def)
    next
      case False
      show ?thesis
      proof (cases "model_validate rd")
        case (Inl e)
        then show ?thesis using sy k False Invalid [of k sy e]
          by (simp add: symbol_key_def raises_on_def mark_seen_def)
      next
        case (Inr r)
        then show ?thesis using sy k False Valid [of k r]
          by (simp add: symbol_key_def raises_on_def mark_seen_def)
      qed
    qed
  qed
qed

declare process_records.simps(2) [simp del]

lemma sample_error_fields [simp]:
  "page_no (sample_error smp p) = page_no p"
  "total_records (sample_error smp p) = total_records p"
  "unique_symbols (sample_error smp p) = unique_symbols p"
  "failed_pages (sample_error smp p) = failed_pages p"
  "retry_count (sample_error smp p) = retry_count p"
  by (simp_all add: sample_error_def)

lemma mark_seen_fields [simp]:
  "page_no (mark_seen k p) = page_no p"
  "total_records (mark_seen k p) = Suc (total_records p)"
  "unique_symbols (mark_seen k p) = finsert k (unique_symbols p)"
  "failed_pages (mark_seen k p) = failed_pages p"
  "retry_count (mark_seen k p) = retry_count p"
  by (simp_all add: mark_seen_def)

lemma process_records_preserves:
  "process_records url ts rs p = (p', outs, e) \<Longrightarrow>
     page_no p' = page_no p \<and> failed_pages p' = failed_pages p \<and> retry_count p' = retry_count p"
proof (induction rs arbitrary: p p' outs e)
  case Nil
  then show ?case by simp
next
  case (Cons rd rs)
  show ?case
  proof (cases rule: process_records_step [of rd url ts rs p])
    case NoSymbol
    with Cons show ?thesis by simp
  next
    case (Raises sy)
    with Cons.prems show ?thesis by simp
  next
    case (Seen k)
    with Cons show ?thesis by simp
  next
    case (Valid k r)
    with Cons.prems obtain o2 where "process_records url ts rs (mark_seen k p) = (p', o2, e)"
      by (auto split: prod.splits)
    from Cons.IH [OF this] show ?thesis by simp
  next
    case (Invalid k sy er)
    with Cons.prems Cons.IH [of "sample_error (ParseErrorSample sy er (page_no p)) (mark_seen k p)" p' outs e]
    show ?thesis by simp
  qed
qed

lemma process_records_count:
  "process_records url ts rs p = (p', outs, e) \<Longrightarrow>
     total_records p' + fcard (unique_symbols p) = total_records p + fcard (unique_symbols p')"
proof (induction rs arbitrary: p p' outs e)
  case Nil
  then show ?case by simp
next
  case (Cons rd rs)
  show ?case
  proof (cases rule: process_records_step [of rd url ts rs p])
    case NoSymbol
    with Cons show ?thesis by simp
  next
    case (Raises sy)
    with Cons.prems show ?thesis by simp
  next
    case (Seen k)
    with Cons show ?thesis by simp
  next
    case (Valid k r)
    with Cons.prems obtain o2 where "process_records url ts rs (mark_seen k p) = (p', o2, e)"
      by (auto split: prod.splits)
    from Cons.IH [OF this] Valid(3) show ?thesis by (simp add: fcard_finsert_disjoint)
  next
    case (Invalid k sy er)
    with Cons.prems Cons.IH [of "sample_error (ParseErrorSample sy er (page_no p)) (mark_seen k p)" p' outs e]
    show ?thesis by (simp add: fcard_finsert_disjoint)
  qed
qed

lemma field_ok_cases:
  assumes "field_ok v"
  obtains "v = JNull" | s where "v = JStr s"
  using assms by (cases v) simp_all

lemma validated_key:
  assumes "model_validate rd = Inr r"
  shows "map_option KStr (record_symbol r) = symbol_key rd"
proof -
  have ok: "\<forall>k \<in> set declared_fields. field_ok (dict_get rd k)"
    using assms by (auto simp: model_validate_def Let_def filter_empty_conv split: if_splits)
  have a: "field_ok (dict_get rd ''A_STOCK_CODE'')" and b: "field_ok (dict_get rd ''B_STOCK_CODE'')"
    and c: "field_ok (dict_get rd ''COMPANY_CODE'')"
    using ok by (simp_all add: declared_fields_def)
  have r: "A_STOCK_CODE r = str_field (dict_get rd ''A_STOCK_CODE'')"
    "B_STOCK_CODE r = str_field (dict_get rd ''B_STOCK_CODE'')"
    "COMPANY_CODE r = str_field (dict_get rd ''COMPANY_CODE'')"
    using assms by (auto simp: model_validate_def Let_def split: if_splits)
  show ?thesis
    unfolding record_symbol_def r symbol_key_def get_symbol_def usable_code_def
      first_usable_symbol_def
    by (rule field_ok_cases [OF a]; rule field_ok_cases [OF b]; rule field_ok_cases [OF c])
      (simp_all add: List.map_filter_simps)
qed

lemma first_occurrences_after_append:
  "first_occurrences_after earlier (xs @ ys) =
     first_occurrences_after earlier xs @ first_occurrences_after (earlier @ xs) ys"
  by (induction xs arbitrary: earlier) simp_all

lemma first_occurrences_after_subset:
  "set (first_occurrences_after earlier xs) \<subseteq> set xs"
  by (induction xs arbitrary: earlier) auto

lemma first_occurrences_after_keys:
  "rd \<in> set (first_occurrences_after earlier xs) \<Longrightarrow>
     symbol_key rd \<noteq> None \<and> symbol_key rd \<notin> set (map symbol_key earlier)"
proof (induction xs arbitrary: earlier)
  case Nil
  then show ?case by simp
next
  case (Cons x xs)
  show ?case
  proof (cases "rd \<in> set (first_occurrences_after (earlier @ [x]) xs)")
    case True
    from Cons.IH [OF this] show ?thesis by simp
  next
    case False
    with Cons.prems have "rd = x" and "symbol_key x \<noteq> None"
      and "symbol_key x \<notin> set (map symbol_key earlier)"
      by (auto split: if_splits)
    then show ?thesis by simp
  qed
qed

lemma first_occurrences_after_distinct:
  "distinct (map symbol_key (first_occurrences_after earlier xs))"
proof (induction xs arbitrary: earlier)
  case Nil
  then show ?case by simp
next
  case (Cons rd xs)
  have "symbol_key rd \<notin> set (map symbol_key (first_occurrences_after (earlier @ [rd]) xs))"
  proof
    assume "symbol_key rd \<in> set (map symbol_key (first_occurrences_after (earlier @ [rd]) xs))"
    then obtain y where y: "y \<in> set (first_occurrences_after (earlier @ [rd]) xs)"
      and eq: "symbol_key y = symbol_key rd" by auto
    from first_occurrences_after_keys [OF y] eq show False by simp
  qed
  with Cons show ?case by simp
qed

lemma process_records_char:
  assumes "process_records url ts rs p = (p', outs, e)" and "seen_keys_of p earlier"
  shows "map fst outs =
           List.map_filter validated
             (first_occurrences_after earlier (takeWhile (\<lambda>rd. \<not> raises_on rd) rs))
         \<and> seen_keys_of p' (earlier @ takeWhile (\<lambda>rd. \<not> raises_on rd) rs)
         \<and> ((e = None) = (\<forall>rd \<in> set rs. \<not> raises_on rd))"
  using assms
proof (induction rs arbitrary: p p' outs e earlier)
  case Nil
  then show ?case by (simp add: List.map_filter_simps)
next
  case (Cons rd rs)
  show ?case
  proof (cases rule: process_records_step [of rd url ts rs p])
    case NoSymbol
    have inv: "seen_keys_of p (earlier @ [rd])"
      using Cons.prems(2) NoSymbol(1) by (auto simp: seen_keys_of_def)
    have "process_records url ts rs p = (p', outs, e)"
      using Cons.prems(1) NoSymbol(3) by simp
    from Cons.IH [OF this inv] NoSymbol(1,2) show ?thesis by simp
  next
    case (Raises sy)
    with Cons.prems show ?thesis by (auto simp: List.map_filter_simps)
  next
    case (Seen k)
    have inv: "seen_keys_of p (earlier @ [rd])"
      using Cons.prems(2) Seen(1,3) by (auto simp: seen_keys_of_def)
    have old: "symbol_key rd \<in> set (map symbol_key earlier)"
      using Cons.prems(2) Seen(1,3) by (auto simp: seen_keys_of_def)
    have "process_records url ts rs p = (p', outs, e)"
      using Cons.prems(1) Seen(4) by simp
    from Cons.IH [OF this inv] Seen(2) old show ?thesis by simp
  next
    case (Valid k r)
    from Cons.prems(1) Valid(5) obtain o2 where
      rest: "process_records url ts rs (mark_seen k p) = (p', o2, e)" and outs: "outs = (r, url, ts) # o2"
      by (auto split: prod.splits)
    have inv: "seen_keys_of (mark_seen k p) (earlier @ [rd])"
      using Cons.prems(2) Valid(1) by (auto simp: seen_keys_of_def)
    have new: "symbol_key rd \<notin> set (map symbol_key earlier)"
      using Cons.prems(2) Valid(1,3) by (auto simp: seen_keys_of_def)
    from Cons.IH [OF rest inv] Valid(1,2,4) new outs show ?thesis
      by (simp add: List.map_filter_simps validated_def)
  next
    case (Invalid k sy er)
    have rest: "process_records url ts rs
        (sample_error (ParseErrorSample sy er (page_no p)) (mark_seen k p)) = (p', outs, e)"
      using Cons.prems(1) Invalid(6) by simp
    have inv: "seen_keys_of (sample_error (ParseErrorSample sy er (page_no p)) (mark_seen k p)) (earlier @ [rd])"
      using Cons.prems(2) Invalid(1) by (auto simp: seen_keys_of_def)
    have new: "symbol_key rd \<notin> set (map symbol_key earlier)"
      using Cons.prems(2) Invalid(1,3) by (auto simp: seen_keys_of_def)
    from Cons.IH [OF rest inv] Invalid(1,2,5) new show ?thesis
      by (simp add: List.map_filter_simps validated_def)
  qed
qed


lemma page_failed_eq:
  "page_failed smp p ce =
     ((sample_error smp (p\<lparr>failed_pages := failed_pages p + 1\<rparr>), Suc ce),
      MAX_CONSECUTIVE_FAILURES \<le> Suc ce)"
  by (simp add: page_failed_def Let_def)

lemma page_iteration_failure:
  "is_failure res \<Longrightarrow>
     \<exists>smp. page_iteration ios cfg ts res (p, ce) =
       ((sample_error smp (p\<lparr>page_no := Suc (page_no p), failed_pages := failed_pages p + 1\<rparr>), Suc ce),
        [], MAX_CONSECUTIVE_FAILURES \<le> Suc ce)"
  by (cases res) (auto simp: page_iteration_def page_failed_eq Let_def)

lemma page_iteration_data:
  assumes "process_records (build_source_url cfg (Suc (page_no p))) ts records
             (p\<lparr>page_no := Suc (page_no p)\<rparr>) = (p1, outs, e)"
  shows "(\<exists>stop. page_iteration ios cfg ts (PageData records page_help) (p, ce) =
            ((p1, 0), outs, stop))
    \<or> (\<exists>msg. page_iteration ios cfg ts (PageData records page_help) (p, ce) =
          ((sample_error (UnexpectedErrorSample (page_no p1) msg)
              (p1\<lparr>failed_pages := failed_pages p1 + 1\<rparr>), Suc 0),
           outs, MAX_CONSECUTIVE_FAILURES \<le> Suc 0))"
  using assms
  by (cases e; cases "should_stop ios cfg records page_help p1 0"; cases "page_sleep cfg")
    (auto simp add: page_iteration_def page_failed_eq Let_def)


lemma page_iteration_char:
  assumes "page_iteration ios cfg ts res (p, ce) = ((p', ce'), outs, stop)"
    and "seen_keys_of p earlier"
  shows "page_no p' = Suc (page_no p)
    \<and> map fst outs = List.map_filter validated (first_occurrences_after earlier (page_records res))
    \<and> seen_keys_of p' (earlier @ page_records res)
    \<and> total_records p' + fcard (unique_symbols p) = total_records p + fcard (unique_symbols p')"
proof (cases "is_failure res")
  case True
  from page_iteration_failure [OF this, of ios cfg ts p ce] assms(1) obtain smp where
    p': "p' = sample_error smp (p\<lparr>page_no := Suc (page_no p), failed_pages := failed_pages p + 1\<rparr>)"
    and outs: "outs = []"
    by auto
  have recs: "page_records res = []"
    using True by (cases res) (simp_all add: page_records_def)
  have inv: "seen_keys_of p' earlier"
    using assms(2) by (simp add: p' seen_keys_of_def)
  show ?thesis
    using inv by (simp add: p' outs recs List.map_filter_simps)
next
  case False
  then obtain records page_help where res: "res = PageData records page_help"
    by (cases res) simp_all
  obtain p1 o1 e where pr: "process_records (build_source_url cfg (Suc (page_no p))) ts records
             (p\<lparr>page_no := Suc (page_no p)\<rparr>) = (p1, o1, e)"
    using prod_cases3 by blast
  have inv: "seen_keys_of (p\<lparr>page_no := Suc (page_no p)\<rparr>) earlier"
    using assms(2) by (simp add: seen_keys_of_def)
  note ch = process_records_char [OF pr inv] and pres = process_records_preserves [OF pr]
    and cnt = process_records_count [OF pr]
  have eq: "(\<exists>b. ((p', ce'), outs, stop) = ((p1, 0), o1, b))
    \<or> (\<exists>msg. ((p', ce'), outs, stop) =
          ((sample_error (UnexpectedErrorSample (page_no p1) msg)
              (p1\<lparr>failed_pages := failed_pages p1 + 1\<rparr>), Suc 0),
           o1, MAX_CONSECUTIVE_FAILURES \<le> Suc 0))"
    using assms(1) page_iteration_data [OF pr, of ios page_help ce] by (simp add: res)
  have us: "unique_symbols p' = unique_symbols p1" and tr: "total_records p' = total_records p1"
    and pn: "page_no p' = page_no p1" and outs: "outs = o1"
    using eq by auto
  have inv': "seen_keys_of p' (earlier @ page_records res)"
    using ch us by (simp add: res page_records_def seen_keys_of_def)
  have m: "map fst outs = List.map_filter validated (first_occurrences_after earlier (page_records res))"
    using ch outs by (simp add: res page_records_def)
  show ?thesis
    using inv' m pres cnt us tr pn by simp
qed


lemma processed_records_Cons:
  "processed_records (res # rest) (Suc n) = page_records res @ processed_records rest n"
  by (simp add: processed_records_def)

lemma processed_records_one:
  "processed_records (res # rest) (Suc 0) = page_records res"
  by (simp add: processed_records_def)

lemma map_filter_append:
  "List.map_filter f (xs @ ys) = List.map_filter f xs @ List.map_filter f ys"
  by (simp add: List.map_filter_def)

lemma iter_pages_char:
  assumes "iter_pages ios cfg ts results (p, ce) = ((p', ce'), outs, halted)"
    and "seen_keys_of p earlier"
  shows "\<exists>n. page_no p' = page_no p + n \<and> n \<le> length results
    \<and> (\<not> halted \<longrightarrow> n = length results) \<and> (halted \<longrightarrow> 0 < n)
    \<and> map fst outs =
        List.map_filter validated (first_occurrences_after earlier (processed_records results n))
    \<and> seen_keys_of p' (earlier @ processed_records results n)
    \<and> total_records p' + fcard (unique_symbols p) = total_records p + fcard (unique_symbols p')"
  using assms
proof (induction results arbitrary: p ce p' ce' outs halted earlier)
  case Nil
  then show ?case by (simp add: processed_records_def List.map_filter_simps)
next
  case (Cons res rest)
  obtain p1 c1 o1 stop where step: "page_iteration ios cfg ts res (p, ce) = ((p1, c1), o1, stop)"
    by (metis prod.collapse)
  note ch = page_iteration_char [OF step Cons.prems(2)]
  show ?case
  proof (cases stop)
    case True
    with Cons.prems(1) step have eqs: "p' = p1" "outs = o1" "halted" by simp_all
    have "page_no p' = page_no p + Suc 0 \<and> Suc 0 \<le> length (res # rest)
      \<and> (\<not> halted \<longrightarrow> Suc 0 = length (res # rest)) \<and> (halted \<longrightarrow> 0 < Suc 0)
      \<and> map fst outs = List.map_filter validated
          (first_occurrences_after earlier (processed_records (res # rest) (Suc 0)))
      \<and> seen_keys_of p' (earlier @ processed_records (res # rest) (Suc 0))
      \<and> total_records p' + fcard (unique_symbols p) = total_records p + fcard (unique_symbols p')"
      using ch eqs by (simp add: processed_records_one)
    then show ?thesis by blast
  next
    case False
    have "iter_pages ios cfg ts (res # rest) (p, ce) =
      (case iter_pages ios cfg ts rest (p1, c1) of (st2, outs2, h) \<Rightarrow> (st2, o1 @ outs2, h))"
      using step False by simp
    with Cons.prems(1) obtain o2 where rest: "iter_pages ios cfg ts rest (p1, c1) = ((p', ce'), o2, halted)"
      and outs: "outs = o1 @ o2"
      by (cases "iter_pages ios cfg ts rest (p1, c1)") auto
    from ch have inv1: "seen_keys_of p1 (earlier @ page_records res)" by simp
    from Cons.IH [OF rest inv1] obtain n where n: "page_no p' = page_no p1 + n" "n \<le> length rest"
      "\<not> halted \<longrightarrow> n = length rest" "halted \<longrightarrow> 0 < n"
      and m: "map fst o2 = List.map_filter validated
          (first_occurrences_after (earlier @ page_records res) (processed_records rest n))"
      and inv2: "seen_keys_of p' ((earlier @ page_records res) @ processed_records rest n)"
      and cnt: "total_records p' + fcard (unique_symbols p1) = total_records p1 + fcard (unique_symbols p')"
      by blast
    have a: "page_no p' = page_no p + Suc n" using ch n(1) by simp
    have b: "map fst outs = List.map_filter validated
          (first_occurrences_after earlier (processed_records (res # rest) (Suc n)))"
      using ch m by (simp add: outs processed_records_Cons first_occurrences_after_append map_filter_append)
    have c: "seen_keys_of p' (earlier @ processed_records (res # rest) (Suc n))"
      using inv2 by (simp add: processed_records_Cons)
    have d: "total_records p' + fcard (unique_symbols p) = total_records p + fcard (unique_symbols p')"
      using ch cnt by linarith
    have "page_no p' = page_no p + Suc n \<and> Suc n \<le> length (res # rest)
      \<and> (\<not> halted \<longrightarrow> Suc n = length (res # rest)) \<and> (halted \<longrightarrow> 0 < Suc n)
      \<and> map fst outs = List.map_filter validated
          (first_occurrences_after earlier (processed_records (res # rest) (Suc n)))
      \<and> seen_keys_of p' (earlier @ processed_records (res # rest) (Suc n))
      \<and> total_records p' + fcard (unique_symbols p) = total_records p + fcard (unique_symbols p')"
      using a b c d n(2,3) by simp
    then show ?thesis by blast
  qed
qed


lemmas run_eval =
  iter_raw_records_def page_iteration_def example_config_def new_progress_def get_symbol_def
  dict_get_def usable_code_def model_validate_def declared_fields_def sample_error_def
  MAX_ERROR_SAMPLES_def should_stop_def reached_def py_or_def Let_def
  MAX_CONSECUTIVE_FAILURES_def MAX_PAGES_def page_failed_def process_records.simps
  record_600000_def record_600004_def record_600006_def invalid_600000_def unhashable_record_def
  infinite_total_def page_sleep_def time_sleep_def

lemma iter_raw_records_char:
  "map fst (fst (snd (iter_raw_records ios cfg ts results))) =
     List.map_filter validated
       (first_occurrences
          (processed_records results (page_no (fst (fst (iter_raw_records ios cfg ts results))))))
   \<and> total_records (fst (fst (iter_raw_records ios cfg ts results))) =
       fcard (unique_symbols (fst (fst (iter_raw_records ios cfg ts results))))"
proof -
  obtain p' ce' outs halted where run: "iter_pages ios cfg ts results (new_progress, 0) = ((p', ce'), outs, halted)"
    by (metis prod.collapse)
  have inv: "seen_keys_of new_progress []"
    by (simp add: seen_keys_of_def new_progress_def)
  have z: "page_no new_progress = 0" "total_records new_progress = 0"
    "fcard (unique_symbols new_progress) = 0"
    by (simp_all add: new_progress_def)
  from iter_pages_char [OF run inv] show ?thesis
    by (auto simp: iter_raw_records_def run first_occurrences_def z)
qed

lemma map_filter_validated_keys:
  "map (\<lambda>r. map_option KStr (record_symbol r)) (List.map_filter validated xs) =
     map symbol_key (filter (\<lambda>rd. validated rd \<noteq> None) xs)"
proof (induction xs)
  case Nil
  then show ?case by (simp add: List.map_filter_simps)
next
  case (Cons rd xs)
  show ?case
  proof (cases "model_validate rd")
    case (Inl e)
    with Cons show ?thesis by (simp add: List.map_filter_simps validated_def)
  next
    case (Inr r)
    with Cons validated_key [OF Inr] show ?thesis
      by (simp add: List.map_filter_simps validated_def)
  qed
qed

lemma yielded_keys_eq:
  "map fst outs = List.map_filter validated xs \<Longrightarrow>
     map yielded_key outs = map symbol_key (filter (\<lambda>rd. validated rd \<noteq> None) xs)"
proof -
  assume a: "map fst outs = List.map_filter validated xs"
  have "map yielded_key outs = map (\<lambda>r. map_option KStr (record_symbol r)) (map fst outs)"
    by (simp add: yielded_key_def comp_def)
  then show ?thesis by (simp add: a map_filter_validated_keys)
qed

lemma skip_seen:
  "symbol_key rd = Some k \<Longrightarrow> k |\<in>| unique_symbols p \<Longrightarrow>
     process_records url ts (rd # rest) p = process_records url ts rest p"
  by (cases rule: process_records_step [of rd url ts rest p]) simp_all

text \<open>
  Claim C1, as amended. For any sequence of page results, the records yielded are the
  validated first occurrences, in page order, of the keys among the records the run went
  through: at most one record per key, and none for a key whose first occurrence fails
  validation. A later occurrence of a key already seen is skipped, and leaves the seen
  set and the counters as they are.
\<close>

theorem dedup_first_valid_occurrence:
  "map fst (fst (snd (iter_raw_records ios cfg ts results))) =
     List.map_filter validated
       (first_occurrences
          (processed_records results (page_no (fst (fst (iter_raw_records ios cfg ts results))))))
   \<and> distinct (map yielded_key (fst (snd (iter_raw_records ios cfg ts results))))
   \<and> (symbol_key rd = Some k \<and> k |\<in>| unique_symbols p \<longrightarrow>
        process_records url ts [rd] p = (p, [], None))"
proof -
  note ch = iter_raw_records_char [of ios cfg ts results, THEN conjunct1]
  have "distinct (map yielded_key (fst (snd (iter_raw_records ios cfg ts results))))"
    unfolding yielded_keys_eq [OF ch] first_occurrences_def
    by (rule distinct_map_filter) (rule first_occurrences_after_distinct)
  moreover have "symbol_key rd = Some k \<and> k |\<in>| unique_symbols p \<longrightarrow>
        process_records url ts [rd] p = (p, [], None)"
    using skip_seen [of rd k p url ts "[]"] by simp
  ultimately show ?thesis using ch by blast
qed

text \<open>
  Two pages that repeat a key: three records are yielded, one per key.
\<close>

theorem dedup_first_valid_occurrence_witness:
  "map (\<lambda>y. record_symbol (fst y))
     (fst (snd (iter_raw_records (\<lambda>s. None)
        (example_config\<lparr>pagination := \<lparr>page_size = 2, cache_size = 1\<rparr>\<rparr>) example_asof
        [PageData [record_600000, record_600004] [], PageData [record_600000, record_600006] [],
         PageData [] []])))
    = [Some ''600000'', Some ''600004'', Some ''600006'']"
  using dedup_first_valid_occurrence [of "\<lambda>s. None"
      "example_config\<lparr>pagination := \<lparr>page_size = 2, cache_size = 1\<rparr>\<rparr>" example_asof
      "[PageData [record_600000, record_600004] [], PageData [record_600000, record_600006] [],
         PageData [] []]" record_600000 "KStr ''600000''"
      "new_progress\<lparr>unique_symbols := {|KStr ''600000''|}\<rparr>" "''u''"]
  by (simp add: run_eval record_symbol_def first_usable_symbol_def List.map_filter_simps)

text \<open>
  Claim C1 as stated fails: a page holds the key 600000 twice, first in a record that
  fails validation; nothing is yielded for the key.
\<close>

theorem dedup_first_occurrence_counterexample:
  "symbol_key invalid_600000 = Some (KStr ''600000'')
   \<and> symbol_key record_600000 = Some (KStr ''600000'')
   \<and> fst (snd (iter_raw_records (\<lambda>s. None) example_config example_asof
        [PageData [invalid_600000, record_600000] []])) = []"
  by (simp add: run_eval symbol_key_def)

text \<open>
  Claim C9. In every manifest that \<^verbatim>\<open>build_manifest\<close> produces the records-seen
  statistic and the unique-records statistic are both the writer's total count, which
  starts at zero and grows by one with every record written, so they are equal; and in
  the engine \<^verbatim>\<open>total_records\<close> equals the size of \<^verbatim>\<open>unique_symbols\<close>, after any run and,
  within a page, after any records.
\<close>

theorem records_seen_equals_unique:
  "stats_total_records (stats (build_manifest exch ts cfg w duration failed errs)) =
     stats_unique_records (stats (build_manifest exch ts cfg w duration failed errs))
   \<and> stats_total_records (stats (build_manifest exch ts cfg w duration failed errs)) =
       get_total_count w
   \<and> stats_unique_records (stats (build_manifest exch ts cfg w duration failed errs)) =
       get_total_count w
   \<and> get_total_count (new_writer exch) = 0
   \<and> get_total_count (write_record rec w) = get_total_count w + 1
   \<and> total_records (fst (fst (iter_raw_records ios cfg ts results))) =
       unique_count (fst (fst (iter_raw_records ios cfg ts results)))
   \<and> (total_records p = unique_count p \<longrightarrow>
        total_records (fst (process_records url ts rs p)) =
          unique_count (fst (process_records url ts rs p)))"
proof -
  obtain p' outs e where pr: "process_records url ts rs p = (p', outs, e)"
    using prod_cases3 by blast
  have "total_records p = unique_count p \<longrightarrow>
        total_records (fst (process_records url ts rs p)) =
          unique_count (fst (process_records url ts rs p))"
    using process_records_count [OF pr] by (simp add: pr unique_count_def)
  then show ?thesis
    using iter_raw_records_char [of ios cfg ts results]
    by (simp add: build_manifest_def unique_count_def get_total_count_def new_writer_def
        write_record_def)
qed

text \<open>
  A manifest built after two records were written reports 2 and 2; a page with a
  repeated key and a record that fails validation leaves both counts of the engine at 2.
\<close>

theorem records_seen_equals_unique_witness:
  "stats_total_records (stats (build_manifest ''Shanghai_Stocks'' example_asof example_config
      (write_record stock_600000 (write_record stock_600000 (new_writer ''Shanghai_Stocks'')))
      3 0 [])) = 2
   \<and> stats_unique_records (stats (build_manifest ''Shanghai_Stocks'' example_asof example_config
      (write_record stock_600000 (write_record stock_600000 (new_writer ''Shanghai_Stocks'')))
      3 0 [])) = 2
   \<and> total_records (fst (fst (iter_raw_records (\<lambda>s. None) example_config example_asof
      [PageData [record_600000, record_600000, invalid_600000, record_600004] []]))) = 2
   \<and> unique_count (fst (fst (iter_raw_records (\<lambda>s. None) example_config example_asof
      [PageData [record_600000, record_600000, invalid_600000, record_600004] []]))) = 2"
  using records_seen_equals_unique [where exch = "''Shanghai_Stocks''" and ts = example_asof
      and cfg = example_config
      and w = "write_record stock_600000 (write_record stock_600000 (new_writer ''Shanghai_Stocks''))"
      and duration = 3 and failed = 0 and errs = "[]" and ios = "\<lambda>s. None"
      and results = "[PageData [record_600000, record_600000, invalid_600000, record_600004] []]"
      and p = new_progress and url = "''u''" and rs = "[record_600000]" and rec = stock_600000]
    records_seen_equals_unique [where exch = "''Shanghai_Stocks''"
      and w = "write_record stock_600000 (new_writer ''Shanghai_Stocks'')" and rec = stock_600000]
    records_seen_equals_unique [where exch = "''Shanghai_Stocks''"
      and w = "new_writer ''Shanghai_Stocks''" and rec = stock_600000]
  by (simp add: run_eval)

lemma first_occurrence_unique:
  assumes "rd' \<in> set (first_occurrences_after earlier (pre @ rd # post))"
    and "symbol_key rd' = Some k" and "symbol_key rd = Some k"
    and "Some k \<notin> set (map symbol_key pre)"
  shows "rd' = rd"
proof -
  have split: "first_occurrences_after earlier (pre @ rd # post) =
      first_occurrences_after earlier pre @ first_occurrences_after (earlier @ pre) (rd # post)"
    by (rule first_occurrences_after_append)
  have "rd' \<notin> set (first_occurrences_after earlier pre)"
    using first_occurrences_after_subset [of earlier pre] assms(2,4) by force
  with assms(1) split have "rd' \<in> set (first_occurrences_after (earlier @ pre) (rd # post))"
    by simp
  moreover have "rd' \<notin> set (first_occurrences_after ((earlier @ pre) @ [rd]) post)"
    using first_occurrences_after_keys [of rd' "(earlier @ pre) @ [rd]" post] assms(2,3) by auto
  ultimately show ?thesis by (auto split: if_splits)
qed

text \<open>
  Claim C10. When a record has a key not yet seen and fails validation, nothing is
  yielded for it, but its key is in the seen set and the total count is incremented; a
  later record with that key, valid or not, is skipped as a duplicate; and when the
  first occurrence of a key among the records a run goes through fails validation, the
  run yields no record with that key.
\<close>

theorem invalid_first_occurrence_blocks_key:
  "(symbol_key rd = Some k \<and> k |\<notin>| unique_symbols p \<and> validated rd = None \<longrightarrow>
      fst (snd (process_records url ts [rd] p)) = []
      \<and> unique_symbols (fst (process_records url ts [rd] p)) = finsert k (unique_symbols p)
      \<and> total_records (fst (process_records url ts [rd] p)) = total_records p + 1)
   \<and> (symbol_key rd' = Some k \<and> k |\<in>| unique_symbols p' \<longrightarrow>
        process_records url ts [rd'] p' = (p', [], None))
   \<and> (processed_records results (page_no (fst (fst (iter_raw_records ios cfg ts results))))
          = pre @ rd # post
        \<and> symbol_key rd = Some k \<and> Some k \<notin> set (map symbol_key pre) \<and> validated rd = None \<longrightarrow>
        Some k \<notin> set (map yielded_key (fst (snd (iter_raw_records ios cfg ts results)))))"
proof -
  have a: "symbol_key rd = Some k \<and> k |\<notin>| unique_symbols p \<and> validated rd = None \<longrightarrow>
      fst (snd (process_records url ts [rd] p)) = []
      \<and> unique_symbols (fst (process_records url ts [rd] p)) = finsert k (unique_symbols p)
      \<and> total_records (fst (process_records url ts [rd] p)) = total_records p + 1"
    by (cases rule: process_records_step [of rd url ts "[]" p]) (auto simp: validated_def)
  have b: "symbol_key rd' = Some k \<and> k |\<in>| unique_symbols p' \<longrightarrow>
        process_records url ts [rd'] p' = (p', [], None)"
    using skip_seen [of rd' k p' url ts "[]"] by simp
  have c: "Some k \<notin> set (map yielded_key (fst (snd (iter_raw_records ios cfg ts results))))"
    if recs: "processed_records results (page_no (fst (fst (iter_raw_records ios cfg ts results))))
          = pre @ rd # post"
      and k: "symbol_key rd = Some k" and new: "Some k \<notin> set (map symbol_key pre)"
      and bad: "validated rd = None"
  proof
    assume "Some k \<in> set (map yielded_key (fst (snd (iter_raw_records ios cfg ts results))))"
    moreover note ch = iter_raw_records_char [of ios cfg ts results, THEN conjunct1]
    ultimately have "Some k \<in> set (map symbol_key (filter (\<lambda>rd. validated rd \<noteq> None)
        (first_occurrences (pre @ rd # post))))"
      using yielded_keys_eq [OF ch] recs by simp
    then obtain rd' where in': "rd' \<in> set (first_occurrences_after [] (pre @ rd # post))"
      and v: "validated rd' \<noteq> None" and k': "symbol_key rd' = Some k"
      by (auto simp: first_occurrences_def)
    from first_occurrence_unique [OF in' k' k new] v bad show False by simp
  qed
  from a b c show ?thesis by blast
qed

text \<open>
  The key 600000 comes first in a record that fails validation and again, valid, on the
  next page: no record with that key is yielded.
\<close>

theorem invalid_first_occurrence_blocks_key_witness:
  "processed_records
      [PageData [invalid_600000, record_600004] [], PageData [record_600000] []]
      (page_no (fst (fst (iter_raw_records (\<lambda>s. None)
         (example_config\<lparr>pagination := \<lparr>page_size = 2, cache_size = 1\<rparr>\<rparr>) example_asof
         [PageData [invalid_600000, record_600004] [], PageData [record_600000] []]))))
     = [] @ invalid_600000 # [record_600004, record_600000]
   \<and> symbol_key record_600000 = Some (KStr ''600000'')
   \<and> validated invalid_600000 = None
   \<and> Some (KStr ''600000'') \<notin> set (map yielded_key (fst (snd (iter_raw_records (\<lambda>s. None)
         (example_config\<lparr>pagination := \<lparr>page_size = 2, cache_size = 1\<rparr>\<rparr>) example_asof
         [PageData [invalid_600000, record_600004] [], PageData [record_600000] []]))))"
  using invalid_first_occurrence_blocks_key [where rd = invalid_600000 and k = "KStr ''600000''"
      and p = new_progress and url = "''u''" and rd' = record_600000
      and p' = "new_progress\<lparr>unique_symbols := {|KStr ''600000''|}\<rparr>"
      and results = "[PageData [invalid_600000, record_600004] [], PageData [record_600000] []]"
      and ios = "\<lambda>s. None"
      and cfg = "example_config\<lparr>pagination := \<lparr>page_size = 2, cache_size = 1\<rparr>\<rparr>"
      and ts = example_asof and pre = "[]" and post = "[record_600004, record_600000]"]
  by (simp add: run_eval symbol_key_def validated_def processed_records_def page_records_def
      raises_on_def yielded_key_def record_symbol_def first_usable_symbol_def List.map_filter_simps)

















section \<open>Properties of the JSONP envelope\<close>

lemma contains_text_iff:
  "contains_text needle t \<longleftrightarrow> (\<exists>a b. t = a @ needle @ b)"
proof (induction t)
  case Nil
  then show ?case by auto
next
  case (Cons c cs)
  have "starts_with needle (c # cs) \<longleftrightarrow> (\<exists>b. c # cs = needle @ b)"
    unfolding starts_with_def
    by (metis append_eq_conv_conj append_take_drop_id)
  moreover have "(\<exists>a b. c # cs = a @ needle @ b) \<longleftrightarrow>
      (\<exists>b. c # cs = needle @ b) \<or> (\<exists>a b. cs = a @ needle @ b)"
  proof
    assume "\<exists>a b. c # cs = a @ needle @ b"
    then obtain a b where ab: "c # cs = a @ needle @ b" by blast
    show "(\<exists>b. c # cs = needle @ b) \<or> (\<exists>a b. cs = a @ needle @ b)"
    proof (cases a)
      case Nil
      with ab show ?thesis by auto
    next
      case (Cons x xs)
      with ab have "cs = xs @ needle @ b" by simp
      then show ?thesis by blast
    qed
  next
    assume "(\<exists>b. c # cs = needle @ b) \<or> (\<exists>a b. cs = a @ needle @ b)"
    then show "\<exists>a b. c # cs = a @ needle @ b"
    proof
      assume "\<exists>b. c # cs = needle @ b"
      then obtain b where "c # cs = [] @ needle @ b" by auto
      then show ?thesis by blast
    next
      assume "\<exists>a b. cs = a @ needle @ b"
      then obtain a b where "c # cs = (c # a) @ needle @ b" by auto
      then show ?thesis by blast
    qed
  qed
  ultimately show ?case using Cons by simp
qed

lemma not_contains_text:
  "x \<in> set needle \<Longrightarrow> x \<notin> set t \<Longrightarrow> \<not> contains_text needle t"
  by (auto simp: contains_text_iff)

lemma dropWhile_id:
  "xs \<noteq> [] \<Longrightarrow> \<not> P (hd xs) \<Longrightarrow> dropWhile P xs = xs"
  by (cases xs) simp_all

lemma strip_id:
  assumes "t \<noteq> []" and "\<not> is_space (hd t)" and "\<not> is_space (last t)"
  shows "strip t = t"
proof -
  have "dropWhile is_space t = t" using assms(1,2) by (rule dropWhile_id)
  moreover have "dropWhile is_space (rev t) = rev t"
    using assms(1,3) by (intro dropWhile_id) (simp_all add: hd_rev)
  ultimately show ?thesis by (simp add: strip_def)
qed

lemma wrapper_exact:
  assumes "dropWhile is_space g = g"
  shows "match_exact cb (cb @ 40 # g @ [41]) = Some g"
    and "match_exact cb (cb @ 40 # g @ [41, 59]) = Some g"
proof -
  have ns: "\<not> is_space 40" "\<not> is_space 41" "\<not> is_space 59"
    by (simp_all add: is_space_def)
  have g: "dropWhile is_space (g @ xs) = g @ xs" if "\<not> is_space (hd xs)" "xs \<noteq> []" for xs
  proof (cases g)
    case Nil
    with that show ?thesis by (cases xs) simp_all
  next
    case (Cons x xs')
    have "\<not> is_space x"
    proof
      assume "is_space x"
      with assms Cons have "dropWhile is_space xs' = x # xs'" by simp
      then have "length (x # xs') \<le> length xs'"
        using length_dropWhile_le [of is_space xs'] by simp
      then show False by simp
    qed
    with Cons show ?thesis by simp
  qed
  show "match_exact cb (cb @ 40 # g @ [41]) = Some g"
    using ns g [of "[41]"]
    by (simp add: match_exact_def starts_with_def match_call_body_def wrapper_group_def)
  show "match_exact cb (cb @ 40 # g @ [41, 59]) = Some g"
    using ns g [of "[41, 59]"]
    by (simp add: match_exact_def starts_with_def match_call_body_def wrapper_group_def)
qed

lemma parse_jsonp_cases:
  "(server_busy (strip body) \<longrightarrow>
      parse_jsonp json_loads is_alnum body cb =
        Inl (RaisedApiError
          (SseApiError ''SSE API returned System Error'' (Some (take 500 (strip body))))))
   \<and> (\<not> server_busy (strip body) \<and> html_page (strip body) \<longrightarrow>
      parse_jsonp json_loads is_alnum body cb =
        Inl (RaisedApiError
          (SseApiError ''SSE API returned HTML error page'' (Some (take 500 (strip body))))))
   \<and> (\<not> server_busy (strip body) \<and> \<not> html_page (strip body) \<longrightarrow>
      parse_jsonp json_loads is_alnum body cb =
        (case match_exact cb (strip body) of
           Some g \<Rightarrow> decode_json json_loads g
         | None \<Rightarrow>
            (case match_lenient is_alnum (strip body) of
               Some g \<Rightarrow> decode_json json_loads g
             | None \<Rightarrow>
                 Inl (RaisedApiError
                   (SseApiError ''Failed to parse JSONP response''
                      (Some (take 500 (strip body))))))))"
  by (auto simp: parse_jsonp_def server_busy_def html_page_def decode_json_def Let_def
      split: option.splits loads_result.splits)

lemma wrapped_digits_plain:
  assumes g: "list_all is_digit g"
    and cb: "cb \<noteq> []" "\<not> is_space (hd cb)" "hd cb \<noteq> 60" "32 \<notin> set cb" "0x7CFB \<notin> set cb"
  shows "strip (cb @ 40 # g @ [41]) = cb @ 40 # g @ [41]"
    and "\<not> server_busy (cb @ 40 # g @ [41])"
    and "\<not> html_page (cb @ 40 # g @ [41])"
proof -
  let ?body = "cb @ 40 # g @ [41]"
  have digits: "\<forall>c \<in> set g. 48 \<le> c \<and> c \<le> 57"
    using g by (simp add: list_all_iff is_digit_def)
  show "strip ?body = ?body"
    using cb(1,2) by (intro strip_id) (simp_all add: is_space_def)
  have sp: "32 \<notin> set ?body" and mk: "0x7CFB \<notin> set ?body"
    using cb(4,5) digits by auto
  show "\<not> server_busy ?body"
    unfolding server_busy_def
    using not_contains_text [of 32 "ascii ''System Error''" ?body]
      not_contains_text [of "0x7CFB" busy_marker ?body] sp mk
    by (simp add: ascii_def busy_marker_def)
  show "\<not> html_page ?body"
    using cb(1,3) by (cases cb) (simp_all add: html_page_def starts_with_def ascii_def)
qed

lemma long_integer_raises:
  assumes g: "g \<noteq> []" "list_all is_digit g" "49 \<le> hd g" "4300 < length g"
    and cb: "cb \<noteq> []" "\<not> is_space (hd cb)" "hd cb \<noteq> 60" "32 \<notin> set cb" "0x7CFB \<notin> set cb"
    and m: "match_exact nm (cb @ 40 # g @ [41]) = Some g
      \<or> (match_exact nm (cb @ 40 # g @ [41]) = None
          \<and> match_lenient is_alnum (cb @ 40 # g @ [41]) = Some g)"
  shows "parse_jsonp loads_integer is_alnum (cb @ 40 # g @ [41]) nm =
           Inl (RaisedOther ''ValueError'' (digit_limit_message (length g)))"
proof -
  let ?body = "cb @ 40 # g @ [41]"
  note plain = wrapped_digits_plain [OF g(2) cb]
  have "loads_integer g = LoadsRaised ''ValueError'' (digit_limit_message (length g))"
    using g by (simp add: loads_integer_def)
  then have "decode_json loads_integer g =
      Inl (RaisedOther ''ValueError'' (digit_limit_message (length g)))"
    by (simp add: decode_json_def)
  then show ?thesis
    using parse_jsonp_cases [of ?body loads_integer is_alnum nm] plain(2,3) m
    by (auto simp: plain(1))
qed

lemma digits_exact:
  assumes "g \<noteq> []" "list_all is_digit g"
  shows "match_exact cb (cb @ 40 # g @ [41]) = Some g"
proof -
  have "\<not> is_space (hd g)"
    using assms by (cases g) (auto simp: is_space_def is_digit_def)
  then have "dropWhile is_space g = g" using assms(1) by (intro dropWhile_id)
  then show ?thesis by (rule wrapper_exact)
qed

text \<open>
  Claim C8, at the response \<^verbatim>\<open>jsonpCallback12345678(11...1)\<close> whose interior is an
  integer of 5000 digits: the text carries no marker of a busy server and is no HTML
  page, the exact pattern matches the generated callback name and gives the digits as
  the interior (for another callback name the exact pattern fails and the lenient one
  gives the same interior), and \<^verbatim>\<open>json.loads\<close> raises a \<^verbatim>\<open>ValueError\<close>, which is no
  \<^verbatim>\<open>JSONDecodeError\<close>. So parsing the interior fails and what leaves \<^verbatim>\<open>_parse_jsonp\<close>
  is that \<^verbatim>\<open>ValueError\<close>, with no snippet of the text, and not the \<^verbatim>\<open>SseApiError\<close> that
  the claim and the documentation of the method
  (\<^verbatim>\<open>Raises: SseApiError: If parsing fails or response indicates error\<close>) promise.
\<close>

theorem parse_jsonp_failing_input:
  "parse_jsonp loads_integer ascii_alnum long_integer_body (ascii ''jsonpCallback12345678'')
     = Inl (RaisedOther ''ValueError'' (digit_limit_message 5000))
   \<and> match_exact (ascii ''jsonpCallback12345678'') long_integer_body = Some (replicate 5000 49)
   \<and> match_exact (ascii ''jsonpCallback87654321'') long_integer_body = None
   \<and> match_lenient ascii_alnum long_integer_body = Some (replicate 5000 49)
   \<and> parse_jsonp loads_integer ascii_alnum long_integer_body (ascii ''jsonpCallback87654321'')
     = Inl (RaisedOther ''ValueError'' (digit_limit_message 5000))"
proof -
  let ?cb = "ascii ''jsonpCallback12345678''"
  let ?g = "replicate 5000 (49 :: nat)"
  have g: "?g \<noteq> []" "list_all is_digit ?g" "49 \<le> hd ?g" "4300 < length ?g"
    by (simp_all add: list_all_iff is_digit_def)
  have cb: "?cb \<noteq> []" "\<not> is_space (hd ?cb)" "hd ?cb \<noteq> 60" "32 \<notin> set ?cb" "0x7CFB \<notin> set ?cb"
    by (simp_all add: ascii_def is_space_def)
  have exact: "match_exact ?cb (?cb @ 40 # ?g @ [41]) = Some ?g"
    using g(1,2) by (rule digits_exact)
  have other: "match_exact (ascii ''jsonpCallback87654321'') (?cb @ 40 # ?g @ [41]) = None"
    by (simp add: match_exact_def starts_with_def ascii_def)
  have word: "takeWhile (\<lambda>c. ascii_alnum c \<or> c = 95) (?cb @ 40 # ?g @ [41]) = ?cb"
    and rest: "dropWhile (\<lambda>c. ascii_alnum c \<or> c = 95) (?cb @ 40 # ?g @ [41]) = 40 # ?g @ [41]"
    by (simp_all add: ascii_def ascii_alnum_def)
  have "match_exact [] (40 # ?g @ [41]) = Some ?g"
    using digits_exact [OF g(1,2), of "[]"] by simp
  then have call: "match_call_body (40 # ?g @ [41]) = Some ?g"
    by (simp add: match_exact_def starts_with_def)
  have lenient: "match_lenient ascii_alnum (?cb @ 40 # ?g @ [41]) = Some ?g"
    unfolding match_lenient_def Let_def word rest call by (simp add: ascii_def)
  have first: "parse_jsonp loads_integer ascii_alnum (?cb @ 40 # ?g @ [41]) ?cb
      = Inl (RaisedOther ''ValueError'' (digit_limit_message (length ?g)))"
    using g cb exact by (intro long_integer_raises) simp_all
  have second: "parse_jsonp loads_integer ascii_alnum (?cb @ 40 # ?g @ [41])
        (ascii ''jsonpCallback87654321'')
      = Inl (RaisedOther ''ValueError'' (digit_limit_message (length ?g)))"
    using g cb other lenient by (intro long_integer_raises) simp_all
  show ?thesis
    unfolding long_integer_body_def
    using first second exact other lenient by simp
qed

end
